theory Spec2Isabelle
  imports Main "HOL-Library.Sublist" "HOL-Library.AList"
begin

section \<open>Python values and the operations the program uses on them\<close>

text \<open>
  The program (\<^verbatim>\<open>main.py\<close>) works on the values that \<^verbatim>\<open>json.loads\<close> returns: a story is a
  dict from node identifiers to nodes, a node is a dict, and nothing is converted to a typed
  structure after loading. The model keeps that: a value is a \<open>json\<close>, a dict is an association
  list in insertion order, and every operation that raises in Python returns \<open>Inl\<close> of the
  exception.

  A Python \<^verbatim>\<open>str\<close> is modelled by the bytes of its UTF-8 encoding (\<open>string\<close>). Every
  operation the program applies to strings (equality, concatenation, search for the braces,
  stripping of white space, decoding of JSON) is the same on the encoding.

  A float is kept as the decimal literal it was read from (\<open>Dec m e\<close> is \<open>m * 10 ^ e\<close>); the
  program only observes whether a float is zero.
\<close>

datatype pyfloat = Dec int int | NaN | PosInfinity | NegInfinity

datatype json =
    JNull
  | JBool bool
  | JInt int
  | JFloat pyfloat
  | JStr string
  | JArr "json list"
  | JObj "(string \<times> json) list"

type_synonym pydict = "(string \<times> json) list"

text \<open>The places of \<^verbatim>\<open>load_story\<close> that raise, with the values their messages are formatted from.\<close>

datatype cause =
    StoryFileNotFound
  | NotValidJSON
  | TopLevelNotObject
  | MustHaveStringText string
  | OptionsMustBeList string
  | OptionUnknownNode string json
  | HintWithoutRoute string
  | NextMapMustBeList string
  | NextMapEntriesMustBeStrings string
  | NextMapUnknownNode string string
  | NextUnknownNode string json

datatype error =
    FileNotFoundError cause
  | ValueError cause
  | TypeError
  | AttributeError
  | KeyError json
  | NameError
  | BridgeError string

text \<open>
  A decimal literal is read as the nearest double, which is zero exactly when the literal is
  at most \<open>2 ^ - 1075\<close> in absolute value (half of the least subnormal, ties to even).
\<close>

fun float_is_zero :: "pyfloat \<Rightarrow> bool" where
  "float_is_zero (Dec m e) = (m = 0 \<or> (e < 0 \<and> \<bar>m\<bar> * 2 ^ 1075 \<le> 10 ^ nat (- e)))"
| "float_is_zero NaN = False"
| "float_is_zero PosInfinity = False"
| "float_is_zero NegInfinity = False"

text \<open>\<^verbatim>\<open>bool(x)\<close>, the test of \<^verbatim>\<open>if x\<close>, \<^verbatim>\<open>not x\<close> and \<^verbatim>\<open>x and y\<close>.\<close>

fun truthy :: "json \<Rightarrow> bool" where
  "truthy JNull = False"
| "truthy (JBool b) = b"
| "truthy (JInt i) = (i \<noteq> 0)"
| "truthy (JFloat f) = (\<not> float_is_zero f)"
| "truthy (JStr s) = (s \<noteq> [])"
| "truthy (JArr xs) = (xs \<noteq> [])"
| "truthy (JObj kvs) = (kvs \<noteq> [])"

fun is_str :: "json \<Rightarrow> bool" where
  "is_str (JStr s) = True"
| "is_str _ = False"

fun is_list :: "json \<Rightarrow> bool" where
  "is_list (JArr xs) = True"
| "is_list _ = False"

text \<open>\<^verbatim>\<open>x.get(key, default)\<close>: only a dict has the method.\<close>

fun py_get :: "json \<Rightarrow> string \<Rightarrow> json \<Rightarrow> error + json" where
  "py_get (JObj kvs) k d = Inr (case map_of kvs k of None \<Rightarrow> d | Some v \<Rightarrow> v)"
| "py_get _ k d = Inl AttributeError"

text \<open>\<^verbatim>\<open>x[key]\<close> with a string key: a missing key of a dict is a KeyError, a string or a list
  takes integer indices only, the other values are not subscriptable.\<close>

fun py_getitem :: "json \<Rightarrow> string \<Rightarrow> error + json" where
  "py_getitem (JObj kvs) k = (case map_of kvs k of None \<Rightarrow> Inl (KeyError (JStr k)) | Some v \<Rightarrow> Inr v)"
| "py_getitem _ k = Inl TypeError"

text \<open>\<^verbatim>\<open>key in x\<close> with a string key: a key of a dict, a substring of a string, an element of a
  list; the other values are not iterable.\<close>

fun py_contains :: "json \<Rightarrow> string \<Rightarrow> error + bool" where
  "py_contains (JObj kvs) k = Inr (k \<in> set (map fst kvs))"
| "py_contains (JStr s) k = Inr (sublist k s)"
| "py_contains (JArr xs) k = Inr (JStr k \<in> set xs)"
| "py_contains _ k = Inl TypeError"

text \<open>\<^verbatim>\<open>x in story\<close> for a dict whose keys are strings: a list or a dict cannot be hashed, a
  string is looked up, any other value is hashable and equal to no key.\<close>

fun py_in_story :: "json \<Rightarrow> pydict \<Rightarrow> error + bool" where
  "py_in_story (JStr s) story = Inr (s \<in> set (map fst story))"
| "py_in_story (JArr xs) story = Inl TypeError"
| "py_in_story (JObj kvs) story = Inl TypeError"
| "py_in_story _ story = Inr False"

text \<open>The elements \<^verbatim>\<open>for x in v\<close> runs over: a list's elements, a dict's keys, a string's
  characters (here one byte each: the program never iterates a string of a loaded story).\<close>

fun py_iter :: "json \<Rightarrow> error + json list" where
  "py_iter (JArr xs) = Inr xs"
| "py_iter (JObj kvs) = Inr (map (JStr \<circ> fst) kvs)"
| "py_iter (JStr s) = Inr (map (\<lambda>c. JStr [c]) s)"
| "py_iter _ = Inl TypeError"

section \<open>The JSON decoder\<close>

text \<open>
  \<^verbatim>\<open>json.loads\<close> is the decoder of Python's standard library; the program calls it and none of
  its code is in the repository. \<open>json_loads\<close> models it (\<open>None\<close>: it raises JSONDecodeError):
  white space is space, tab, line feed and carriage return; the literals are
  \<^verbatim>\<open>null true false NaN Infinity -Infinity\<close>; a number is \<^verbatim>\<open>-?(0|[1-9][0-9]*)(\.[0-9]+)?([eE][-+]?[0-9]+)?\<close>
  and is an int without fraction and exponent; a string is strict (no raw control
  character) and its \<^verbatim>\<open>\uXXXX\<close> escapes are decoded and written in UTF-8; in an object a later
  duplicate of a key replaces the value and keeps the first position, as \<^verbatim>\<open>dict\<close> does.
  No theorem below other than the evaluations at concrete inputs unfolds it.
\<close>

definition is_json_ws :: "char \<Rightarrow> bool" where
  "is_json_ws c = (c = CHR '' '' \<or> c = CHR 0x09 \<or> c = CHR 0x0A \<or> c = CHR 0x0D)"

definition skip_ws :: "string \<Rightarrow> string" where
  "skip_ws s = dropWhile is_json_ws s"

definition is_digit :: "char \<Rightarrow> bool" where
  "is_digit c = (48 \<le> (of_char c :: nat) \<and> (of_char c :: nat) \<le> 57)"

definition digits_value :: "string \<Rightarrow> nat" where
  "digits_value ds = foldl (\<lambda>n c. 10 * n + ((of_char c :: nat) - 48)) 0 ds"

definition hex_value :: "char \<Rightarrow> nat option" where
  "hex_value c =
     (let n = (of_char c :: nat) in
      if 48 \<le> n \<and> n \<le> 57 then Some (n - 48)
      else if 65 \<le> n \<and> n \<le> 70 then Some (n - 55)
      else if 97 \<le> n \<and> n \<le> 102 then Some (n - 87)
      else None)"

definition hex4 :: "char \<Rightarrow> char \<Rightarrow> char \<Rightarrow> char \<Rightarrow> nat option" where
  "hex4 a b c d =
     (case (hex_value a, hex_value b, hex_value c, hex_value d) of
        (Some w, Some x, Some y, Some z) \<Rightarrow> Some (((w * 16 + x) * 16 + y) * 16 + z)
      | _ \<Rightarrow> None)"

definition utf8 :: "nat \<Rightarrow> string" where
  "utf8 n =
     (if n < 0x80 then [char_of n]
      else if n < 0x800 then [char_of (0xC0 + n div 64), char_of (0x80 + n mod 64)]
      else if n < 0x10000 then
        [char_of (0xE0 + n div 4096), char_of (0x80 + (n div 64) mod 64), char_of (0x80 + n mod 64)]
      else
        [char_of (0xF0 + n div 262144), char_of (0x80 + (n div 4096) mod 64),
         char_of (0x80 + (n div 64) mod 64), char_of (0x80 + n mod 64)])"

definition unescape :: "char \<Rightarrow> char option" where
  "unescape c =
     (if c = CHR 0x22 then Some (CHR 0x22)
      else if c = CHR 0x5C then Some (CHR 0x5C)
      else if c = CHR ''/'' then Some (CHR ''/'')
      else if c = CHR ''b'' then Some (CHR 0x08)
      else if c = CHR ''f'' then Some (CHR 0x0C)
      else if c = CHR ''n'' then Some (CHR 0x0A)
      else if c = CHR ''r'' then Some (CHR 0x0D)
      else if c = CHR ''t'' then Some (CHR 0x09)
      else None)"

text \<open>
  After a \<^verbatim>\<open>\uXXXX\<close> escape of a high surrogate the scanner looks for a second escape: with a low
  surrogate the two are joined, otherwise the first stands alone and the scan goes on after it.
  \<open>low_surrogate\<close> gives the second code unit (the six characters of its escape are then
  skipped); \<open>Some None\<close> is the error of a second escape with a digit that is not hexadecimal.
\<close>

definition low_surrogate :: "string \<Rightarrow> nat option option" where
  "low_surrogate r =
     (case r of
        b # u # h1 # h2 # h3 # h4 # c # more \<Rightarrow>
          if b = CHR 0x5C \<and> u = CHR ''u'' then
            (case hex4 h1 h2 h3 h4 of
               None \<Rightarrow> Some None
             | Some lo \<Rightarrow> if 0xDC00 \<le> lo \<and> lo \<le> 0xDFFF then Some (Some lo) else None)
          else None
      | _ \<Rightarrow> None)"

text \<open>The string body after the opening quote: the decoded string and the text after the
  closing quote.\<close>

function scan_string :: "string \<Rightarrow> (string \<times> string) option" where
  "scan_string [] = None"
| "scan_string (c # cs) =
     (if c = CHR 0x22 then Some ([], cs)
      else if c = CHR 0x5C then
        (case cs of
           [] \<Rightarrow> None
         | e # r \<Rightarrow>
             if e = CHR ''u'' then
               (case r of
                  h1 # h2 # h3 # h4 # r' \<Rightarrow>
                    (case hex4 h1 h2 h3 h4 of
                       None \<Rightarrow> None
                     | Some hi \<Rightarrow>
                         if 0xD800 \<le> hi \<and> hi \<le> 0xDBFF then
                           (case low_surrogate r' of
                              Some None \<Rightarrow> None
                            | Some (Some lo) \<Rightarrow>
                                map_option (\<lambda>(s, t). (utf8 (0x10000 + (hi - 0xD800) * 1024 + (lo - 0xDC00)) @ s, t))
                                  (scan_string (drop 6 r'))
                            | None \<Rightarrow> map_option (\<lambda>(s, t). (utf8 hi @ s, t)) (scan_string r'))
                         else map_option (\<lambda>(s, t). (utf8 hi @ s, t)) (scan_string r'))
                | _ \<Rightarrow> None)
             else
               (case unescape e of
                  None \<Rightarrow> None
                | Some x \<Rightarrow> map_option (\<lambda>(s, t). (x # s, t)) (scan_string r)))
      else if (of_char c :: nat) < 0x20 then None
      else map_option (\<lambda>(s, t). (c # s, t)) (scan_string cs))"
  by pat_completeness auto
termination
  by (relation "measure length") auto

text \<open>A number: the integer part, then a fraction and an exponent, each taken only when it is
  complete.\<close>

definition scan_fraction :: "string \<Rightarrow> string \<times> string" where
  "scan_fraction r =
     (case r of
        p # d # r' \<Rightarrow>
          if p = CHR ''.'' \<and> is_digit d then (d # takeWhile is_digit r', dropWhile is_digit r')
          else ([], r)
      | _ \<Rightarrow> ([], r))"

definition scan_exponent :: "string \<Rightarrow> int option \<times> string" where
  "scan_exponent r =
     (case r of
        [] \<Rightarrow> (None, r)
      | e # r1 \<Rightarrow>
          if e = CHR ''e'' \<or> e = CHR ''E'' then
            (let (neg, r2) =
               (case r1 of
                  [] \<Rightarrow> (False, r1)
                | s # r2 \<Rightarrow> if s = CHR ''-'' then (True, r2) else if s = CHR ''+'' then (False, r2) else (False, r1))
             in if r2 \<noteq> [] \<and> is_digit (hd r2) then
                  (Some ((if neg then - 1 else 1) * int (digits_value (takeWhile is_digit r2))),
                   dropWhile is_digit r2)
                else (None, r))
          else (None, r))"

definition scan_number :: "string \<Rightarrow> (json \<times> string) option" where
  "scan_number s =
     (let (neg, s1) = (case s of [] \<Rightarrow> (False, s) | c # r \<Rightarrow> if c = CHR ''-'' then (True, r) else (False, s))
      in case s1 of
           [] \<Rightarrow> None
         | c # r \<Rightarrow>
             if \<not> is_digit c then None
             else
               (let (ds, r1) = (if c = CHR ''0'' then ([c], r) else (c # takeWhile is_digit r, dropWhile is_digit r));
                    (fs, r2) = scan_fraction r1;
                    (ex, r3) = scan_exponent r2;
                    sgn = (if neg then - 1 else 1 :: int)
                in if fs = [] \<and> ex = None then Some (JInt (sgn * int (digits_value ds)), r3)
                   else Some (JFloat (Dec (sgn * int (digits_value (ds @ fs)))
                                          ((case ex of None \<Rightarrow> 0 | Some x \<Rightarrow> x) - int (length fs))), r3)))"

definition scan_literal :: "string \<Rightarrow> (json \<times> string) option" where
  "scan_literal s =
     (if prefix ''null'' s then Some (JNull, drop 4 s)
      else if prefix ''true'' s then Some (JBool True, drop 4 s)
      else if prefix ''false'' s then Some (JBool False, drop 5 s)
      else (case scan_number s of
              Some r \<Rightarrow> Some r
            | None \<Rightarrow>
                if prefix ''NaN'' s then Some (JFloat NaN, drop 3 s)
                else if prefix ''Infinity'' s then Some (JFloat PosInfinity, drop 8 s)
                else if prefix ''-Infinity'' s then Some (JFloat NegInfinity, drop 9 s)
                else None))"

text \<open>The values, with fuel for the nesting; \<open>json_loads\<close> gives more fuel than a text can
  use (each call that takes fuel follows a character read, and a list element takes two).\<close>

fun scan_once :: "nat \<Rightarrow> string \<Rightarrow> (json \<times> string) option"
  and scan_array :: "nat \<Rightarrow> string \<Rightarrow> json list \<Rightarrow> (json \<times> string) option"
  and scan_object :: "nat \<Rightarrow> string \<Rightarrow> pydict \<Rightarrow> (json \<times> string) option"
where
  "scan_once 0 s = None"
| "scan_once (Suc n) s =
     (case s of
        [] \<Rightarrow> None
      | c # r \<Rightarrow>
          if c = CHR 0x22 then
            (case scan_string r of None \<Rightarrow> None | Some (x, r') \<Rightarrow> Some (JStr x, r'))
          else if c = CHR ''{'' then
            (case skip_ws r of
               [] \<Rightarrow> None
             | d # r' \<Rightarrow> if d = CHR ''}'' then Some (JObj [], r') else scan_object n (d # r') [])
          else if c = CHR ''['' then
            (case skip_ws r of
               [] \<Rightarrow> None
             | d # r' \<Rightarrow> if d = CHR '']'' then Some (JArr [], r') else scan_array n (d # r') [])
          else scan_literal s)"
| "scan_array 0 s acc = None"
| "scan_array (Suc n) s acc =
     (case scan_once n s of
        None \<Rightarrow> None
      | Some (v, r) \<Rightarrow>
          (case skip_ws r of
             [] \<Rightarrow> None
           | c # r' \<Rightarrow>
               if c = CHR '']'' then Some (JArr (acc @ [v]), r')
               else if c = CHR '','' then scan_array n (skip_ws r') (acc @ [v])
               else None))"
| "scan_object 0 s acc = None"
| "scan_object (Suc n) s acc =
     (case s of
        [] \<Rightarrow> None
      | q # r \<Rightarrow>
          if q \<noteq> CHR 0x22 then None
          else
            (case scan_string r of
               None \<Rightarrow> None
             | Some (k, r1) \<Rightarrow>
                 (case skip_ws r1 of
                    [] \<Rightarrow> None
                  | c # r2 \<Rightarrow>
                      if c \<noteq> CHR '':'' then None
                      else
                        (case scan_once n (skip_ws r2) of
                           None \<Rightarrow> None
                         | Some (v, r3) \<Rightarrow>
                             (case skip_ws r3 of
                                [] \<Rightarrow> None
                              | d # r4 \<Rightarrow>
                                  if d = CHR ''}'' then Some (JObj (AList.update k v acc), r4)
                                  else if d = CHR '','' then scan_object n (skip_ws r4) (AList.update k v acc)
                                  else None)))))"

definition json_loads :: "string \<Rightarrow> json option" where
  "json_loads s =
     (case scan_once (2 * length s + 2) (skip_ws s) of
        None \<Rightarrow> None
      | Some (v, r) \<Rightarrow> if skip_ws r = [] then Some v else None)"

section \<open>Loading and validating the story: \<^verbatim>\<open>load_story\<close>\<close>

text \<open>A \<^verbatim>\<open>for\<close> loop whose body may raise: the first exception ends it.\<close>

primrec for_each :: "('a \<Rightarrow> error option) \<Rightarrow> 'a list \<Rightarrow> error option" where
  "for_each f [] = None"
| "for_each f (x # xs) = (case f x of Some e \<Rightarrow> Some e | None \<Rightarrow> for_each f xs)"

text \<open>The body of the first loop (lines 33 to 37): the node has a string \<^verbatim>\<open>text\<close>, and
  \<^verbatim>\<open>options\<close>, if present, is a list.\<close>

definition check_text_and_options :: "string \<Rightarrow> json \<Rightarrow> error option" where
  "check_text_and_options node_id node =
     (case py_contains node ''text'' of
        Inl e \<Rightarrow> Some e
      | Inr has_text \<Rightarrow>
          if \<not> has_text then Some (ValueError (MustHaveStringText node_id))
          else
            (case py_getitem node ''text'' of
               Inl e \<Rightarrow> Some e
             | Inr t \<Rightarrow>
                 if \<not> is_str t then Some (ValueError (MustHaveStringText node_id))
                 else
                   (case py_contains node ''options'' of
                      Inl e \<Rightarrow> Some e
                    | Inr has_options \<Rightarrow>
                        if \<not> has_options then None
                        else
                          (case py_getitem node ''options'' of
                             Inl e \<Rightarrow> Some e
                           | Inr opts \<Rightarrow>
                               if \<not> is_list opts then Some (ValueError (OptionsMustBeList node_id))
                               else None))))"

text \<open>The body of the inner loop of the second loop (lines 41 to 43):
  \<^verbatim>\<open>if nxt and nxt not in story: raise\<close>.\<close>

definition check_option :: "pydict \<Rightarrow> string \<Rightarrow> json \<Rightarrow> error option" where
  "check_option story node_id opt =
     (case py_get opt ''next'' JNull of
        Inl e \<Rightarrow> Some e
      | Inr nxt \<Rightarrow>
          if \<not> truthy nxt then None
          else
            (case py_in_story nxt story of
               Inl e \<Rightarrow> Some e
             | Inr found \<Rightarrow>
                 if \<not> found then Some (ValueError (OptionUnknownNode node_id nxt)) else None))"

definition check_options :: "pydict \<Rightarrow> string \<Rightarrow> json \<Rightarrow> error option" where
  "check_options story node_id node =
     (case py_get node ''options'' (JArr []) of
        Inl e \<Rightarrow> Some e
      | Inr opts \<Rightarrow>
          (case py_iter opts of
             Inl e \<Rightarrow> Some e
           | Inr xs \<Rightarrow> for_each (check_option story node_id) xs))"

text \<open>The third loop (lines 45 to 68). Lines 58 to 65, for a \<^verbatim>\<open>next_map\<close> that is not None:\<close>

definition check_next_map_entry :: "pydict \<Rightarrow> string \<Rightarrow> json \<Rightarrow> error option" where
  "check_next_map_entry story node_id t =
     (case t of
        JStr s \<Rightarrow>
          if s \<notin> set (map fst story) then Some (ValueError (NextMapUnknownNode node_id s)) else None
      | _ \<Rightarrow> Some (ValueError (NextMapEntriesMustBeStrings node_id)))"

definition check_next_map :: "pydict \<Rightarrow> string \<Rightarrow> json \<Rightarrow> error option" where
  "check_next_map story node_id nm =
     (case nm of
        JArr ts \<Rightarrow> for_each (check_next_map_entry story node_id) ts
      | _ \<Rightarrow> Some (ValueError (NextMapMustBeList node_id)))"

definition check_routing :: "pydict \<Rightarrow> string \<Rightarrow> json \<Rightarrow> error option" where
  "check_routing story node_id node =
     (case py_get node ''options'' JNull of
        Inl e \<Rightarrow> Some e
      | Inr opts \<Rightarrow>
     (case py_get node ''next_hint'' JNull of
        Inl e \<Rightarrow> Some e
      | Inr hint \<Rightarrow>
     (case py_get node ''next_map'' JNull of
        Inl e \<Rightarrow> Some e
      | Inr nm \<Rightarrow>
     (case py_get node ''next'' JNull of
        Inl e \<Rightarrow> Some e
      | Inr nxt \<Rightarrow>
          if \<not> truthy opts \<and> truthy hint \<and> \<not> truthy nm \<and> \<not> truthy nxt
          then Some (ValueError (HintWithoutRoute node_id))
          else
            (case (if nm \<noteq> JNull then check_next_map story node_id nm else None) of
               Some e \<Rightarrow> Some e
             | None \<Rightarrow>
                 if nxt \<noteq> JNull then
                   (case py_in_story nxt story of
                      Inl e \<Rightarrow> Some e
                    | Inr found \<Rightarrow>
                        if \<not> found then Some (ValueError (NextUnknownNode node_id nxt)) else None)
                 else None)))))"

text \<open>The three loops over \<^verbatim>\<open>story.items()\<close>, one after the other.\<close>

definition validate :: "pydict \<Rightarrow> error + pydict" where
  "validate story =
     (case for_each (\<lambda>(node_id, node). check_text_and_options node_id node) story of
        Some e \<Rightarrow> Inl e
      | None \<Rightarrow>
          (case for_each (\<lambda>(node_id, node). check_options story node_id node) story of
             Some e \<Rightarrow> Inl e
           | None \<Rightarrow>
               (case for_each (\<lambda>(node_id, node). check_routing story node_id node) story of
                  Some e \<Rightarrow> Inl e
                | None \<Rightarrow> Inr story)))"

text \<open>
  The story file is the input: \<open>None\<close> when \<^verbatim>\<open>STORY_PATH\<close> does not exist, \<open>Some text\<close> with its
  text otherwise.
\<close>

definition load_story :: "string option \<Rightarrow> error + pydict" where
  "load_story file =
     (case file of
        None \<Rightarrow> Inl (FileNotFoundError StoryFileNotFound)
      | Some text \<Rightarrow>
          (case json_loads text of
             None \<Rightarrow> Inl (ValueError NotValidJSON)
           | Some (JObj story) \<Rightarrow> validate story
           | Some _ \<Rightarrow> Inl (ValueError TopLevelNotObject)))"

section \<open>Reading the model's answer: \<^verbatim>\<open>parse_scene_and_options_json\<close>\<close>

text \<open>
  \<^verbatim>\<open>str.strip()\<close> removes the white space of Python (the code points for which \<^verbatim>\<open>str.isspace\<close>
  holds) at both ends. Each is one to three bytes in UTF-8: U+0009 to U+000D, U+001C to
  U+0020, U+0085, U+00A0, U+1680, U+2000 to U+200A, U+2028, U+2029, U+202F, U+205F, U+3000.
\<close>

definition py_whitespace :: "string list" where
  "py_whitespace =
     [[CHR 0x09], [CHR 0x0A], [CHR 0x0B], [CHR 0x0C], [CHR 0x0D], [CHR 0x1C], [CHR 0x1D],
      [CHR 0x1E], [CHR 0x1F], [CHR 0x20], [CHR 0xC2, CHR 0x85], [CHR 0xC2, CHR 0xA0],
      [CHR 0xE1, CHR 0x9A, CHR 0x80], [CHR 0xE2, CHR 0x80, CHR 0x80],
      [CHR 0xE2, CHR 0x80, CHR 0x81], [CHR 0xE2, CHR 0x80, CHR 0x82],
      [CHR 0xE2, CHR 0x80, CHR 0x83], [CHR 0xE2, CHR 0x80, CHR 0x84],
      [CHR 0xE2, CHR 0x80, CHR 0x85], [CHR 0xE2, CHR 0x80, CHR 0x86],
      [CHR 0xE2, CHR 0x80, CHR 0x87], [CHR 0xE2, CHR 0x80, CHR 0x88],
      [CHR 0xE2, CHR 0x80, CHR 0x89], [CHR 0xE2, CHR 0x80, CHR 0x8A],
      [CHR 0xE2, CHR 0x80, CHR 0xA8], [CHR 0xE2, CHR 0x80, CHR 0xA9],
      [CHR 0xE2, CHR 0x80, CHR 0xAF], [CHR 0xE2, CHR 0x81, CHR 0x9F],
      [CHR 0xE3, CHR 0x80, CHR 0x80]]"

function strip_left :: "string list \<Rightarrow> string \<Rightarrow> string" where
  "strip_left ws s =
     (case find (\<lambda>w. w \<noteq> [] \<and> prefix w s) ws of
        None \<Rightarrow> s
      | Some w \<Rightarrow> strip_left ws (drop (length w) s))"
  by pat_completeness auto
termination
proof (relation "measure (\<lambda>(ws, s). length s)")
  show "wf (measure (\<lambda>(ws, s). length s))" by simp
next
  fix ws :: "string list" and s w :: string
  assume "find (\<lambda>w. w \<noteq> [] \<and> prefix w s) ws = Some w"
  then have "w \<noteq> []" and "prefix w s"
    by (auto simp: find_Some_iff)
  then have "length w \<le> length s" and "length w \<noteq> 0"
    by (auto simp: prefix_length_le)
  then have "length (drop (length w) s) < length s"
    by (simp del: length_0_conv length_greater_0_conv)
  then show "((ws, drop (length w) s), (ws, s)) \<in> measure (\<lambda>(ws, s). length s)"
    by simp
qed

definition py_strip :: "string \<Rightarrow> string" where
  "py_strip s = rev (strip_left (map rev py_whitespace) (rev (strip_left py_whitespace s)))"

text \<open>
  \<^verbatim>\<open>re.search(r'\{.*\}', text, re.DOTALL)\<close>: the leftmost match starts at the first opening
  brace that has a closing brace after it, which is the first opening brace if any has one;
  the dot matches every character and the star is greedy, so the match ends at the last
  closing brace.
\<close>

definition re_search_braces :: "string \<Rightarrow> string option" where
  "re_search_braces text =
     (case dropWhile (\<lambda>c. c \<noteq> CHR ''{'') text of
        [] \<Rightarrow> None
      | b # rest \<Rightarrow>
          (case rev (dropWhile (\<lambda>c. c \<noteq> CHR ''}'') (rev rest)) of
             [] \<Rightarrow> None
           | inner \<Rightarrow> Some (b # inner)))"

text \<open>Lines 124 to 131, what is done with the decoded value.\<close>

fun str_or_empty :: "json \<Rightarrow> string" where
  "str_or_empty (JStr s) = s"
| "str_or_empty _ = []"

fun strs_or_empty :: "json \<Rightarrow> string list" where
  "strs_or_empty (JArr xs) = (if list_all is_str xs then map str_or_empty xs else [])"
| "strs_or_empty _ = []"

definition scene_and_options :: "json \<Rightarrow> error + (string \<times> string list)" where
  "scene_and_options data =
     (case py_get data ''scene'' (JStr []) of
        Inl e \<Rightarrow> Inl e
      | Inr scene \<Rightarrow>
          (case py_get data ''options'' (JArr []) of
             Inl e \<Rightarrow> Inl e
           | Inr options \<Rightarrow>
               Inr (py_strip (str_or_empty scene), map py_strip (take 2 (strs_or_empty options)))))"

definition parse_scene_and_options_json :: "string \<Rightarrow> error + (string \<times> string list)" where
  "parse_scene_and_options_json text =
     (case json_loads text of
        Some data \<Rightarrow> scene_and_options data
      | None \<Rightarrow>
          (case re_search_braces text of
             None \<Rightarrow> Inr ([], [])
           | Some m \<Rightarrow>
               (case json_loads m of
                  None \<Rightarrow> Inr ([], [])
                | Some data \<Rightarrow> scene_and_options data)))"

text \<open>A string is trimmed when no white space of Python starts or ends it.\<close>

definition trimmed :: "string \<Rightarrow> bool" where
  "trimmed s = list_all (\<lambda>w. \<not> prefix w s \<and> \<not> suffix w s) py_whitespace"

section \<open>The window: \<^verbatim>\<open>show_node\<close>\<close>

text \<open>
  What the window shows: the status line, the object last written into the text box, the two
  buttons and the error dialogs raised so far. A button that is not packed is \<open>Hidden\<close>; a
  packed one is \<open>Shown label opt\<close>, where \<open>opt\<close> is the option whose \<^verbatim>\<open>"next"\<close> its command
  reads when it is pressed. A dialog keeps the exception whose text it shows.
\<close>

datatype button = Hidden | Shown json json

record ui =
  status :: string
  box :: json
  btn1 :: button
  btn2 :: button
  dialogs :: "(string \<times> error) list"

definition render_text :: "json \<Rightarrow> ui \<Rightarrow> ui" where
  "render_text t u = u\<lparr>box := t\<rparr>"

text \<open>One of the two \<^verbatim>\<open>if len(opts) >= i + 1\<close> of \<^verbatim>\<open>set_buttons\<close>: the label is read at once, the
  target only when the button is pressed.\<close>

definition button_for :: "nat \<Rightarrow> json list \<Rightarrow> error + button" where
  "button_for i opts =
     (if Suc i \<le> length opts then
        (case py_getitem (opts ! i) ''label'' of
           Inl e \<Rightarrow> Inl e
         | Inr l \<Rightarrow> Inr (Shown l (opts ! i)))
      else Inr Hidden)"

text \<open>\<^verbatim>\<open>set_buttons(opts)\<close>. On a value that is not a list: an empty string or dict has length
  0 and hides both buttons, the first character of a string has no string index, a dict has no
  key 0, and the other values have no length.\<close>

fun set_buttons :: "json \<Rightarrow> ui \<Rightarrow> error + ui" where
  "set_buttons (JArr opts) u =
     (case button_for 0 opts of
        Inl e \<Rightarrow> Inl e
      | Inr b1 \<Rightarrow>
          (case button_for 1 opts of
             Inl e \<Rightarrow> Inl e
           | Inr b2 \<Rightarrow> Inr (u\<lparr>btn1 := b1, btn2 := b2\<rparr>)))"
| "set_buttons (JStr s) u = (if s = [] then Inr (u\<lparr>btn1 := Hidden, btn2 := Hidden\<rparr>) else Inl TypeError)"
| "set_buttons (JObj kvs) u =
     (if kvs = [] then Inr (u\<lparr>btn1 := Hidden, btn2 := Hidden\<rparr>) else Inl (KeyError (JInt 0)))"
| "set_buttons _ u = Inl TypeError"

text \<open>\<^verbatim>\<open>node.get(key, default)\<close> and \<^verbatim>\<open>node[key]\<close> on a node that is a dict.\<close>

definition dict_get :: "pydict \<Rightarrow> string \<Rightarrow> json \<Rightarrow> json" where
  "dict_get node k d = (case map_of node k of None \<Rightarrow> d | Some v \<Rightarrow> v)"

text \<open>\<^verbatim>\<open>node["text"] + s\<close> for a string \<open>s\<close>: only a string can be added to.\<close>

definition text_plus :: "pydict \<Rightarrow> string \<Rightarrow> error + string" where
  "text_plus node s =
     (case py_getitem (JObj node) ''text'' of
        Inl e \<Rightarrow> Inl e
      | Inr (JStr t) \<Rightarrow> Inr (t @ s)
      | Inr _ \<Rightarrow> Inl TypeError)"

definition generating :: string where
  "generating = ''\<newline>\<newline>(Generating'' @ [CHR 0xE2, CHR 0x80, CHR 0xA6] @ '')''"

text \<open>
  The thread that \<^verbatim>\<open>show_node\<close> starts for a node with a hint is its second result: the
  values its \<^verbatim>\<open>work\<close> closes over.
\<close>

record request =
  rq_node_id :: string
  rq_node :: pydict
  rq_hint :: json

definition show_node :: "string \<Rightarrow> ui \<Rightarrow> pydict \<Rightarrow> error + (ui \<times> request option)" where
  "show_node node_id u story =
     (case map_of story node_id of
        None \<Rightarrow> Inl (KeyError (JStr node_id))
      | Some (JObj node) \<Rightarrow>
          (let u1 = u\<lparr>status := ''Node: '' @ node_id\<rparr>;
               opts = dict_get node ''options'' (JArr [])
           in if truthy opts then
                (case py_getitem (JObj node) ''text'' of
                   Inl e \<Rightarrow> Inl e
                 | Inr t \<Rightarrow>
                     (case set_buttons opts (render_text t u1) of
                        Inl e \<Rightarrow> Inl e
                      | Inr u2 \<Rightarrow> Inr (u2, None)))
              else
                (let hint = dict_get node ''next_hint'' (JStr []) in
                 if \<not> truthy hint then
                   (case py_getitem (JObj node) ''text'' of
                      Inl e \<Rightarrow> Inl e
                    | Inr t \<Rightarrow>
                        (case set_buttons (JArr []) (render_text t u1) of
                           Inl e \<Rightarrow> Inl e
                         | Inr u2 \<Rightarrow> Inr (u2, None)))
                 else
                   (case text_plus node generating of
                      Inl e \<Rightarrow> Inl e
                    | Inr t \<Rightarrow>
                        Inr ((render_text (JStr t) u1)\<lparr>btn1 := Hidden, btn2 := Hidden\<rparr>,
                             Some \<lparr>rq_node_id = node_id, rq_node = node, rq_hint = hint\<rparr>))))
      | Some _ \<Rightarrow> Inl AttributeError)"

section \<open>The background work and its callback\<close>

text \<open>
  \<^verbatim>\<open>ai_bridge_json\<close> is the call of the text service: it returns the stripped output text or
  raises. Its outcome is an input of the model.
\<close>

datatype generation = Raises error | Output string

text \<open>Lines 186 to 191.\<close>

definition targets :: "string \<Rightarrow> pydict \<Rightarrow> string list \<Rightarrow> string list" where
  "targets node_id node ai_opts =
     (case map_of node ''next_map'' of
        Some (JArr (t # ts)) \<Rightarrow> map str_or_empty (filter is_str (t # ts))
      | _ \<Rightarrow>
          (case dict_get node ''next'' JNull of
             JStr s \<Rightarrow> replicate (max 1 (length ai_opts)) s
           | _ \<Rightarrow> replicate (max 1 (length ai_opts)) node_id))"

definition choice :: "string \<Rightarrow> string \<Rightarrow> json" where
  "choice label nxt = JObj [(''label'', JStr label), (''next'', JStr nxt)]"

text \<open>Lines 193 to 196, the loop over \<^verbatim>\<open>enumerate(ai_opts)\<close>.\<close>

definition mapped :: "pydict \<Rightarrow> string list \<Rightarrow> string list \<Rightarrow> json list" where
  "mapped story tgts ai_opts =
     map (\<lambda>(idx, label). choice label (tgts ! idx))
       (filter (\<lambda>(idx, label). idx < length tgts \<and> tgts ! idx \<in> set (map fst story))
          (enumerate 0 ai_opts))"

text \<open>What \<^verbatim>\<open>work\<close> passes to \<^verbatim>\<open>box.after\<close>: \<^verbatim>\<open>update\<close> with the values it closes over, or the
  error callback, with the exception that the \<^verbatim>\<open>except\<close> clause has caught.\<close>

datatype callback = Update string "string list" "json list" | ShowError error

definition work :: "request \<Rightarrow> pydict \<Rightarrow> generation \<Rightarrow> callback" where
  "work rq story gen =
     (case gen of
        Raises e \<Rightarrow> ShowError e
      | Output out \<Rightarrow>
          (case parse_scene_and_options_json out of
             Inl e \<Rightarrow> ShowError e
           | Inr (scene, ai_opts) \<Rightarrow>
               Update scene ai_opts
                 (mapped story (targets (rq_node_id rq) (rq_node rq) ai_opts) ai_opts)))"

definition debug_lines :: "pydict \<Rightarrow> string list \<Rightarrow> string list" where
  "debug_lines node ai_opts =
     (if ai_opts = [] then [''\<newline>\<newline>[Debug] No options parsed from model output.''] else [])
     @ (if ''next_map'' \<in> set (map fst node) \<and> \<not> truthy (dict_get node ''next_map'' JNull)
        then [''[Debug] Node has empty next_map.''] else [])
     @ (if ''next'' \<notin> set (map fst node) \<and> ''next_map'' \<notin> set (map fst node)
        then [''[Debug] Node has no next/next_map; using loopback.''] else [])"

text \<open>\<^verbatim>\<open>"".join("\n" + d for d in debug_lines)\<close>\<close>

definition debug_text :: "pydict \<Rightarrow> string list \<Rightarrow> string" where
  "debug_text node ai_opts = concat (map (\<lambda>d. ''\<newline>'' @ d) (debug_lines node ai_opts))"

definition update :: "request \<Rightarrow> string \<Rightarrow> string list \<Rightarrow> json list \<Rightarrow> ui \<Rightarrow> error + ui" where
  "update rq scene ai_opts mpd u =
     (case text_plus (rq_node rq) (''\<newline>\<newline>'' @ scene @ debug_text (rq_node rq) ai_opts) of
        Inl e \<Rightarrow> Inl e
      | Inr t \<Rightarrow>
          (let u1 = render_text (JStr t) u in
           if mpd \<noteq> [] then set_buttons (JArr (take 2 mpd)) u1
           else if ai_opts \<noteq> [] then
             set_buttons
               (JArr ([choice (ai_opts ! 0) (rq_node_id rq)]
                      @ (if 1 < length ai_opts then [choice (ai_opts ! 1) (rq_node_id rq)] else [])))
               u1
           else set_buttons (JArr [choice ''Continue'' (rq_node_id rq)]) u1))"

text \<open>
  The error callback of line 219 is \<^verbatim>\<open>lambda: messagebox.showerror("AI Error", str(e))\<close>. It
  closes over the variable \<^verbatim>\<open>e\<close> of the \<^verbatim>\<open>except\<close> clause, not over the exception, and Python
  unbinds that variable when the clause ends, which is right after \<^verbatim>\<open>box.after\<close> has queued the
  callback. The main loop runs the callback later, in the main thread: once the clause has
  ended, \<^verbatim>\<open>str(e)\<close> raises NameError before \<^verbatim>\<open>showerror\<close> is called, Tk reports the exception
  on the error stream, and no dialog is shown. Only a callback that runs while the thread of
  \<^verbatim>\<open>work\<close> has not yet left the clause finds the exception and shows the dialog. \<open>e_bound\<close> tells
  whether \<^verbatim>\<open>e\<close> is still bound when the callback runs. The result is the window that the
  callback leaves and the exception that it raises, if any.
\<close>

definition show_error :: "error \<Rightarrow> bool \<Rightarrow> ui \<Rightarrow> ui \<times> error option" where
  "show_error e e_bound u =
     (if e_bound then (u\<lparr>dialogs := dialogs u @ [(''AI Error'', e)]\<rparr>, None)
      else (u, Some NameError))"

text \<open>
  The callback that \<^verbatim>\<open>work\<close> has queued, run by the main loop on the window as it is then.
\<close>

definition run_callback :: "request \<Rightarrow> callback \<Rightarrow> bool \<Rightarrow> ui \<Rightarrow> error + ui" where
  "run_callback rq cb e_bound u =
     (case cb of
        Update scene ai_opts mpd \<Rightarrow> update rq scene ai_opts mpd u
      | ShowError e \<Rightarrow>
          (case show_error e e_bound u of
             (u', None) \<Rightarrow> Inr u'
           | (u', Some err) \<Rightarrow> Inl err))"

section \<open>Start: \<^verbatim>\<open>build_ui\<close>\<close>

text \<open>
  \<^verbatim>\<open>build_ui\<close> loads the story; a failure is shown in a dialog and the program exits with
  status 1. Otherwise the window is built, with an empty box and both buttons unpacked, and
  the node \<^verbatim>\<open>"start"\<close> is shown; an exception of that first \<^verbatim>\<open>show_node\<close> is caught nowhere.
\<close>

datatype startup =
    Exited error
  | Crashed error
  | Started ui "request option"

definition initial_ui :: ui where
  "initial_ui = \<lparr>status = [], box = JStr [], btn1 = Hidden, btn2 = Hidden, dialogs = []\<rparr>"

definition build_ui :: "string option \<Rightarrow> startup" where
  "build_ui file =
     (case load_story file of
        Inl e \<Rightarrow> Exited e
      | Inr story \<Rightarrow>
          (case show_node ''start'' initial_ui story of
             Inl e \<Rightarrow> Crashed e
           | Inr (u, rq) \<Rightarrow> Started u rq))"

section \<open>Pressing a button\<close>

text \<open>
  The command of a packed button is \<^verbatim>\<open>show_node(opts[i]["next"], ...)\<close>, evaluated when the button
  is pressed. \<^verbatim>\<open>show_node\<close> starts with \<^verbatim>\<open>story[node_id]\<close>: a list or a dict cannot be hashed,
  and a value that is not a string is no key of the story. A button that is not packed cannot
  be pressed.
\<close>

definition press :: "button \<Rightarrow> ui \<Rightarrow> pydict \<Rightarrow> error + (ui \<times> request option)" where
  "press b u story =
     (case b of
        Hidden \<Rightarrow> Inr (u, None)
      | Shown l opt \<Rightarrow>
          (case py_getitem opt ''next'' of
             Inl e \<Rightarrow> Inl e
           | Inr n \<Rightarrow>
               (case n of
                  JStr node_id \<Rightarrow> show_node node_id u story
                | JArr xs \<Rightarrow> Inl TypeError
                | JObj kvs \<Rightarrow> Inl TypeError
                | _ \<Rightarrow> Inl (KeyError n))))"

text \<open>The options on the packed buttons, in order.\<close>

definition choices_shown :: "ui \<Rightarrow> json list" where
  "choices_shown u =
     (case btn1 u of Hidden \<Rightarrow> [] | Shown l opt \<Rightarrow> [opt])
     @ (case btn2 u of Hidden \<Rightarrow> [] | Shown l opt \<Rightarrow> [opt])"

definition labels_shown :: "ui \<Rightarrow> json list" where
  "labels_shown u =
     (case btn1 u of Hidden \<Rightarrow> [] | Shown l opt \<Rightarrow> [l])
     @ (case btn2 u of Hidden \<Rightarrow> [] | Shown l opt \<Rightarrow> [l])"

section \<open>Notions used to state the claims\<close>

text \<open>
  The values through which a node refers to other nodes: the \<^verbatim>\<open>next\<close> of each option, the
  node's \<^verbatim>\<open>next\<close> and the entries of its \<^verbatim>\<open>next_map\<close>. \<^verbatim>\<open>None\<close> stands for no reference
  (\<^verbatim>\<open>.get\<close> gives it for a missing key). \<open>references\<close> are all of them;
  \<open>checked_references\<close> leaves out the \<^verbatim>\<open>next\<close> of an option that is not truthy, which
  is what the guard \<^verbatim>\<open>if nxt and nxt not in story\<close> of \<^verbatim>\<open>load_story\<close> leaves out.
\<close>

fun option_next :: "json \<Rightarrow> json" where
  "option_next (JObj opt) = dict_get opt ''next'' JNull"
| "option_next _ = JNull"

definition option_nexts :: "pydict \<Rightarrow> json list" where
  "option_nexts node =
     (case dict_get node ''options'' (JArr []) of JArr opts \<Rightarrow> map option_next opts | _ \<Rightarrow> [])"

definition next_map_entries :: "pydict \<Rightarrow> json list" where
  "next_map_entries node = (case dict_get node ''next_map'' JNull of JArr ts \<Rightarrow> ts | _ \<Rightarrow> [])"

definition references :: "pydict \<Rightarrow> json list" where
  "references node =
     filter (\<lambda>v. v \<noteq> JNull) (option_nexts node)
     @ filter (\<lambda>v. v \<noteq> JNull) [dict_get node ''next'' JNull]
     @ next_map_entries node"

definition checked_references :: "pydict \<Rightarrow> json list" where
  "checked_references node =
     filter truthy (option_nexts node)
     @ filter (\<lambda>v. v \<noteq> JNull) [dict_get node ''next'' JNull]
     @ next_map_entries node"

fun is_key :: "pydict \<Rightarrow> json \<Rightarrow> bool" where
  "is_key story (JStr k) = (k \<in> set (map fst story))"
| "is_key story _ = False"

text \<open>The label of an option, which \<^verbatim>\<open>set_buttons\<close> reads with \<^verbatim>\<open>opt["label"]\<close>.\<close>

fun has_label :: "json \<Rightarrow> bool" where
  "has_label (JObj opt) = (''label'' \<in> set (map fst opt))"
| "has_label _ = False"

fun label_of :: "json \<Rightarrow> json" where
  "label_of (JObj opt) = dict_get opt ''label'' JNull"
| "label_of _ = JNull"

text \<open>The kinds of exception.\<close>

fun is_value_error :: "error \<Rightarrow> bool" where
  "is_value_error (ValueError c) = True"
| "is_value_error _ = False"

fun is_file_not_found_error :: "error \<Rightarrow> bool" where
  "is_file_not_found_error (FileNotFoundError c) = True"
| "is_file_not_found_error _ = False"

text \<open>
  A story of the shape the data model describes: every node is an object, every option of a
  list of options is an object, and no \<^verbatim>\<open>next\<close> is a list or an object.
\<close>

fun hashable :: "json \<Rightarrow> bool" where
  "hashable (JArr xs) = False"
| "hashable (JObj kvs) = False"
| "hashable _ = True"

fun option_shaped :: "json \<Rightarrow> bool" where
  "option_shaped (JObj opt) = hashable (dict_get opt ''next'' JNull)"
| "option_shaped _ = False"

fun node_shaped :: "json \<Rightarrow> bool" where
  "node_shaped (JObj node) =
     ((case dict_get node ''options'' (JArr []) of JArr opts \<Rightarrow> list_all option_shaped opts | _ \<Rightarrow> True)
      \<and> hashable (dict_get node ''next'' JNull))"
| "node_shaped _ = False"

definition story_shaped :: "pydict \<Rightarrow> bool" where
  "story_shaped story = list_all (\<lambda>(node_id, node). node_shaped node) story"

text \<open>
  The violations that the specification lists for a node, read on the code's values: no
  string \<^verbatim>\<open>text\<close> (a node that is no object has none); \<^verbatim>\<open>options\<close> present and not a list; a
  checked reference that is no key; \<^verbatim>\<open>next_map\<close> not None and not a list of strings; a hint, no
  options and neither \<^verbatim>\<open>next_map\<close> nor \<^verbatim>\<open>next\<close>. An option that is no object is added to them:
  the specification takes an option to be a choice with a label and a target.
\<close>

definition lacks_string_text :: "pydict \<Rightarrow> bool" where
  "lacks_string_text node = (case map_of node ''text'' of Some (JStr t) \<Rightarrow> False | _ \<Rightarrow> True)"

definition options_not_a_list :: "pydict \<Rightarrow> bool" where
  "options_not_a_list node =
     (case map_of node ''options'' of None \<Rightarrow> False | Some (JArr opts) \<Rightarrow> False | Some _ \<Rightarrow> True)"

fun is_object :: "json \<Rightarrow> bool" where
  "is_object (JObj kvs) = True"
| "is_object _ = False"

definition option_not_an_object :: "pydict \<Rightarrow> bool" where
  "option_not_an_object node =
     (case dict_get node ''options'' (JArr []) of JArr opts \<Rightarrow> \<not> list_all is_object opts | _ \<Rightarrow> False)"

definition dangling_reference :: "pydict \<Rightarrow> pydict \<Rightarrow> bool" where
  "dangling_reference story node = (\<not> list_all (is_key story) (checked_references node))"

definition next_map_not_strings :: "pydict \<Rightarrow> bool" where
  "next_map_not_strings node =
     (case dict_get node ''next_map'' JNull of
        JNull \<Rightarrow> False
      | JArr ts \<Rightarrow> \<not> list_all is_str ts
      | _ \<Rightarrow> True)"

definition hint_without_route :: "pydict \<Rightarrow> bool" where
  "hint_without_route node =
     (\<not> truthy (dict_get node ''options'' JNull) \<and> truthy (dict_get node ''next_hint'' JNull)
      \<and> \<not> truthy (dict_get node ''next_map'' JNull) \<and> \<not> truthy (dict_get node ''next'' JNull))"

fun node_violation :: "pydict \<Rightarrow> json \<Rightarrow> bool" where
  "node_violation story (JObj node) =
     (lacks_string_text node \<or> options_not_a_list node \<or> option_not_an_object node
      \<or> dangling_reference story node \<or> next_map_not_strings node \<or> hint_without_route node)"
| "node_violation story _ = True"

definition story_violation :: "pydict \<Rightarrow> bool" where
  "story_violation story = list_ex (\<lambda>(node_id, node). node_violation story node) story"

section \<open>A story for the examples\<close>

text \<open>
  A story file with a node of each kind: authored options (together with a hint, a \<^verbatim>\<open>next\<close>
  and a \<^verbatim>\<open>next_map\<close>), a hint routed by \<^verbatim>\<open>next_map\<close>, a hint routed by \<^verbatim>\<open>next\<close>, and a node with
  neither options nor hint. \<open>forest\<close> is the story that \<^verbatim>\<open>load_story\<close> returns for it.
\<close>

definition forest_text :: string where
  \<open>forest_text =
     ''{"start": {"text": "The forest.",
                  "options": [{"label": "Enter", "next": "path"}, {"label": "Wait", "next": "start"},
                              {"label": "Leave", "next": "end"}],
                  "next_hint": "unused", "next": "end", "next_map": ["end"]},
        "path": {"text": "A path.", "next_hint": "a fork", "next_map": ["end", "glade"]},
        "glade": {"text": "A glade.", "next_hint": "a stream", "next": "end"},
        "end": {"text": "The end."}}''\<close>

definition start_node :: pydict where
  "start_node =
     [(''text'', JStr ''The forest.''),
      (''options'', JArr [JObj [(''label'', JStr ''Enter''), (''next'', JStr ''path'')],
                          JObj [(''label'', JStr ''Wait''), (''next'', JStr ''start'')],
                          JObj [(''label'', JStr ''Leave''), (''next'', JStr ''end'')]]),
      (''next_hint'', JStr ''unused''), (''next'', JStr ''end''), (''next_map'', JArr [JStr ''end''])]"

definition path_node :: pydict where
  "path_node =
     [(''text'', JStr ''A path.''), (''next_hint'', JStr ''a fork''),
      (''next_map'', JArr [JStr ''end'', JStr ''glade''])]"

definition glade_node :: pydict where
  "glade_node = [(''text'', JStr ''A glade.''), (''next_hint'', JStr ''a stream''), (''next'', JStr ''end'')]"

definition end_node :: pydict where
  "end_node = [(''text'', JStr ''The end.'')]"

definition forest :: pydict where
  "forest =
     [(''start'', JObj start_node), (''path'', JObj path_node), (''glade'', JObj glade_node),
      (''end'', JObj end_node)]"

section \<open>Auxiliary facts\<close>

lemma for_each_None: "for_each f xs = None \<longleftrightarrow> (\<forall>x\<in>set xs. f x = None)"
  by (induction xs) (auto split: option.splits)

lemma strip_left_no_prefix: "w \<in> set ws \<Longrightarrow> w \<noteq> [] \<Longrightarrow> \<not> prefix w (strip_left ws s)"
proof (induction ws s rule: strip_left.induct)
  case (1 ws s)
  show ?case
  proof (cases "find (\<lambda>w. w \<noteq> [] \<and> prefix w s) ws")
    case None
    then have "\<not> prefix w s" using "1.prems" by (auto simp: find_None_iff)
    with None show ?thesis by simp
  next
    case (Some v)
    with "1.IH"[OF Some] "1.prems" show ?thesis by simp
  qed
qed

lemma strip_left_decomp: "\<exists>xs. set xs \<subseteq> set ws \<and> s = concat xs @ strip_left ws s"
proof (induction ws s rule: strip_left.induct)
  case (1 ws s)
  show ?case
  proof (cases "find (\<lambda>w. w \<noteq> [] \<and> prefix w s) ws")
    case None
    then have "set [] \<subseteq> set ws \<and> s = concat [] @ strip_left ws s" by simp
    then show ?thesis by blast
  next
    case (Some v)
    then have v: "v \<in> set ws" "prefix v s"
      by (auto simp: find_Some_iff)
    from "1.IH"[OF Some] obtain xs where xs: "set xs \<subseteq> set ws"
      "drop (length v) s = concat xs @ strip_left ws (drop (length v) s)" by blast
    from v(2) have "s = v @ drop (length v) s"
      by (auto simp: prefix_def)
    with xs(2) Some have "s = concat (v # xs) @ strip_left ws s"
      by simp
    moreover have "set (v # xs) \<subseteq> set ws" using v(1) xs(1) by simp
    ultimately show ?thesis by blast
  qed
qed

lemma py_whitespace_nonempty: "w \<in> set py_whitespace \<Longrightarrow> w \<noteq> []"
  by (auto simp: py_whitespace_def)

lemma py_strip_decomp:
  "\<exists>xs ys. set xs \<subseteq> set py_whitespace \<and> set ys \<subseteq> set py_whitespace \<and> s = concat xs @ py_strip s @ concat ys"
proof -
  obtain xs where xs: "set xs \<subseteq> set py_whitespace" "s = concat xs @ strip_left py_whitespace s"
    using strip_left_decomp by blast
  let ?m = "strip_left py_whitespace s"
  obtain zs where zs: "set zs \<subseteq> set (map rev py_whitespace)"
    "rev ?m = concat zs @ strip_left (map rev py_whitespace) (rev ?m)"
    using strip_left_decomp by blast
  have "?m = rev (rev ?m)" by simp
  also have "\<dots> = py_strip s @ rev (concat zs)"
    by (subst zs(2)) (simp add: py_strip_def)
  also have "rev (concat zs) = concat (map rev (rev zs))"
    by (simp add: rev_concat rev_map)
  finally have m: "?m = py_strip s @ concat (map rev (rev zs))" .
  have "set (map rev (rev zs)) \<subseteq> set py_whitespace"
    using zs(1) by auto
  with xs m show ?thesis
    by (metis)
qed

lemma py_strip_trimmed: "trimmed (py_strip s)"
proof -
  let ?m = "strip_left py_whitespace s"
  have "\<not> prefix w (py_strip s) \<and> \<not> suffix w (py_strip s)" if w: "w \<in> set py_whitespace" for w
  proof
    have ne: "w \<noteq> []" using w by (rule py_whitespace_nonempty)
    have "rev w \<in> set (map rev py_whitespace)" using w by simp
    then have "\<not> prefix (rev w) (strip_left (map rev py_whitespace) (rev ?m))"
      using ne by (intro strip_left_no_prefix) auto
    then show "\<not> suffix w (py_strip s)"
      by (simp add: py_strip_def suffix_to_prefix)
    obtain zs where "rev ?m = concat zs @ strip_left (map rev py_whitespace) (rev ?m)"
      using strip_left_decomp by blast
    then have "?m = py_strip s @ rev (concat zs)"
      by (metis py_strip_def rev_append rev_rev_ident)
    then have "prefix (py_strip s) ?m"
      by (metis prefixI)
    moreover have "\<not> prefix w ?m"
      using w ne by (rule strip_left_no_prefix)
    ultimately show "\<not> prefix w (py_strip s)"
      using prefix_order.trans by blast
  qed
  then show ?thesis
    by (simp add: trimmed_def list_all_iff)
qed

lemma re_search_braces_Some_iff:
  "re_search_braces text = Some m \<longleftrightarrow>
     (\<exists>pre inner post. text = pre @ m @ post \<and> m = CHR ''{'' # inner @ ''}''
        \<and> CHR ''{'' \<notin> set pre \<and> CHR ''}'' \<notin> set post)"
proof
  assume a: "re_search_braces text = Some m"
  let ?P = "\<lambda>c. c \<noteq> CHR ''{''" and ?Q = "\<lambda>c. c \<noteq> CHR ''}''"
  from a obtain b rest where d: "dropWhile ?P text = b # rest"
    by (auto simp: re_search_braces_def split: list.splits)
  then have b: "b = CHR ''{''" and t: "text = takeWhile ?P text @ b # rest"
    by (auto simp: dropWhile_eq_Cons_conv)
  from a d obtain y ys where r: "rev (dropWhile ?Q (rev rest)) = y # ys" and m: "m = b # y # ys"
    by (auto simp: re_search_braces_def split: list.splits)
  from r have "dropWhile ?Q (rev rest) = rev (y # ys)"
    by (metis rev_rev_ident)
  then obtain z zs where dz: "dropWhile ?Q (rev rest) = z # zs" and zz: "rev (y # ys) = z # zs"
    by (metis list.exhaust rev_is_Nil_conv list.distinct(1))
  from dz have z: "z = CHR ''}''" and rr: "rev rest = takeWhile ?Q (rev rest) @ z # zs"
    by (auto simp: dropWhile_eq_Cons_conv)
  from zz have yys: "y # ys = rev zs @ [z]"
    by (metis rev.simps(2) rev_rev_ident)
  from rr have "rest = rev (takeWhile ?Q (rev rest) @ z # zs)"
    by (metis rev_rev_ident)
  then have rest: "rest = rev zs @ [z] @ rev (takeWhile ?Q (rev rest))"
    by simp
  have "text = takeWhile ?P text @ m @ rev (takeWhile ?Q (rev rest))"
    using t rest m yys by (metis append.assoc append_Cons)
  moreover have "m = CHR ''{'' # rev zs @ ''}''"
    using m b yys z by simp
  moreover have "CHR ''{'' \<notin> set (takeWhile ?P text)"
    using set_takeWhileD by fastforce
  moreover have "CHR ''}'' \<notin> set (rev (takeWhile ?Q (rev rest)))"
    using set_takeWhileD by fastforce
  ultimately show "\<exists>pre inner post. text = pre @ m @ post \<and> m = CHR ''{'' # inner @ ''}''
        \<and> CHR ''{'' \<notin> set pre \<and> CHR ''}'' \<notin> set post"
    by blast
next
  assume "\<exists>pre inner post. text = pre @ m @ post \<and> m = CHR ''{'' # inner @ ''}''
        \<and> CHR ''{'' \<notin> set pre \<and> CHR ''}'' \<notin> set post"
  then obtain pre inner post where t: "text = pre @ m @ post" and m: "m = CHR ''{'' # inner @ ''}''"
    and pre: "CHR ''{'' \<notin> set pre" and post: "CHR ''}'' \<notin> set post" by blast
  have 1: "dropWhile (\<lambda>c. c \<noteq> CHR ''{'') text = CHR ''{'' # (inner @ ''}'' @ post)"
    using pre by (auto simp: t m dropWhile_append3)
  have "rev (inner @ ''}'' @ post) = rev post @ CHR ''}'' # rev inner" by simp
  then have "dropWhile (\<lambda>c. c \<noteq> CHR ''}'') (rev (inner @ ''}'' @ post)) = CHR ''}'' # rev inner"
    using post by (auto simp: dropWhile_append3)
  then have 2: "rev (dropWhile (\<lambda>c. c \<noteq> CHR ''}'') (rev (inner @ ''}'' @ post))) = inner @ ''}''"
    by simp
  show "re_search_braces text = Some m"
    unfolding re_search_braces_def 1 list.case 2 using m by (cases inner) simp_all
qed

lemma re_search_braces_None_iff:
  "re_search_braces text = None \<longleftrightarrow> \<not> (\<exists>a b c. text = a @ CHR ''{'' # b @ CHR ''}'' # c)"
proof -
  let ?P = "\<lambda>c. c \<noteq> CHR ''{''" and ?Q = "\<lambda>c. c \<noteq> CHR ''}''"
  have "re_search_braces text \<noteq> None" if t: "text = a @ CHR ''{'' # b @ CHR ''}'' # c" for a b c
  proof -
    have "CHR ''{'' \<in> set text" using t by simp
    then have "dropWhile ?P text \<noteq> []" by (simp add: dropWhile_eq_Nil_conv) 
    then obtain x rest where d: "dropWhile ?P text = x # rest"
      by (cases "dropWhile ?P text") auto
    then have x: "x = CHR ''{''" and tw: "text = takeWhile ?P text @ x # rest"
      by (auto simp: dropWhile_eq_Cons_conv)
    have ntw: "CHR ''{'' \<notin> set (takeWhile ?P text)"
      using set_takeWhileD by fastforce
    from tw t have "takeWhile ?P text @ CHR ''{'' # rest = a @ CHR ''{'' # b @ CHR ''}'' # c"
      using x by simp
    then have "CHR ''}'' \<in> set rest"
      using ntw by (auto simp: append_eq_append_conv2 Cons_eq_append_conv append_eq_Cons_conv)
    then have "dropWhile ?Q (rev rest) \<noteq> []"
      by (simp add: dropWhile_eq_Nil_conv)
    then show ?thesis
      using d by (auto simp: re_search_braces_def split: list.splits)
  qed
  moreover have "\<exists>a b c. text = a @ CHR ''{'' # b @ CHR ''}'' # c" if "re_search_braces text \<noteq> None"
  proof -
    from that obtain m where "re_search_braces text = Some m" by auto
    then obtain pre inner post where "text = pre @ m @ post" "m = CHR ''{'' # inner @ ''}''"
      unfolding re_search_braces_Some_iff by blast
    then have "text = pre @ CHR ''{'' # inner @ CHR ''}'' # post" by simp
    then show ?thesis by blast
  qed
  ultimately show ?thesis by blast
qed

lemma scene_and_options_shape:
  "scene_and_options d = Inr (scene, labels) \<Longrightarrow>
     length labels \<le> 2 \<and> trimmed scene \<and> list_all trimmed labels"
  by (cases d) (auto simp: scene_and_options_def py_strip_trimmed list_all_iff)

lemma trimmed_Nil: "trimmed []"
  by (auto simp: trimmed_def list_all_iff dest: py_whitespace_nonempty)

lemma parse_shape:
  "parse_scene_and_options_json text = Inr (scene, labels) \<Longrightarrow>
     length labels \<le> 2 \<and> trimmed scene \<and> list_all trimmed labels"
  by (auto simp: parse_scene_and_options_json_def trimmed_Nil split: option.splits
           dest: scene_and_options_shape)

lemma strs_or_empty_strings: "strs_or_empty (JArr (map JStr ls)) = ls"
  by (simp add: list_all_iff comp_def)

text \<open>Facts about the checks of \<^verbatim>\<open>load_story\<close>.\<close>

lemma key_in_dict: "k \<in> fst ` set kvs \<longleftrightarrow> (\<exists>v. map_of kvs k = Some v)"
  by (metis map_of_eq_None_iff not_Some_eq)

lemma check_text_and_options_None:
  "check_text_and_options node_id n = None \<longleftrightarrow>
     (\<exists>node. n = JObj node \<and> \<not> lacks_string_text node \<and> \<not> options_not_a_list node)"
  by (cases n)
     (auto simp: check_text_and_options_def lacks_string_text_def options_not_a_list_def
                 key_in_dict
           split: option.splits json.splits sum.splits if_splits)

lemma check_option_None:
  "check_option story node_id opt = None \<longleftrightarrow>
     (is_object opt \<and> (truthy (option_next opt) \<longrightarrow> is_key story (option_next opt)))"
  by (cases opt; cases "option_next opt")
     (auto simp: check_option_def dict_get_def split: option.splits if_splits)

lemma check_option_kind:
  "option_shaped opt \<Longrightarrow> check_option story node_id opt = Some e \<Longrightarrow> is_value_error e"
  by (cases opt; cases "option_next opt")
     (auto simp: check_option_def dict_get_def split: option.splits if_splits)

lemma for_each_kind:
  "(\<And>x e. x \<in> set xs \<Longrightarrow> f x = Some e \<Longrightarrow> P e) \<Longrightarrow> for_each f xs = Some e \<Longrightarrow> P e"
  by (induction xs) (auto split: option.splits)

lemma options_list_cases:
  "\<not> options_not_a_list node \<Longrightarrow> \<exists>opts. dict_get node ''options'' (JArr []) = JArr opts"
  by (auto simp: options_not_a_list_def dict_get_def split: option.splits json.splits)

lemma check_options_None:
  assumes "\<not> options_not_a_list node"
  shows "check_options story node_id (JObj node) = None \<longleftrightarrow>
           (\<not> option_not_an_object node \<and> list_all (is_key story) (filter truthy (option_nexts node)))"
proof -
  from assms obtain opts where o: "dict_get node ''options'' (JArr []) = JArr opts"
    using options_list_cases by blast
  have "check_options story node_id (JObj node) = for_each (check_option story node_id) opts"
    using o by (simp add: check_options_def dict_get_def)
  also have "\<dots> = None \<longleftrightarrow>
      (\<forall>opt\<in>set opts. is_object opt \<and> (truthy (option_next opt) \<longrightarrow> is_key story (option_next opt)))"
    by (simp add: for_each_None check_option_None)
  also have "\<dots> \<longleftrightarrow>
      (\<not> option_not_an_object node \<and> list_all (is_key story) (filter truthy (option_nexts node)))"
    using o by (auto simp: option_nexts_def option_not_an_object_def list_all_iff)
  finally show ?thesis .
qed

lemma check_options_kind:
  assumes "\<not> options_not_a_list node" and "node_shaped (JObj node)"
    and "check_options story node_id (JObj node) = Some e"
  shows "is_value_error e"
proof -
  from assms(1) obtain opts where o: "dict_get node ''options'' (JArr []) = JArr opts"
    using options_list_cases by blast
  with assms(2) have sh: "\<forall>opt\<in>set opts. option_shaped opt"
    by (simp add: list_all_iff)
  have "check_options story node_id (JObj node) = for_each (check_option story node_id) opts"
    using o by (simp add: check_options_def dict_get_def)
  with assms(3) have "for_each (check_option story node_id) opts = Some e" by simp
  moreover have "is_value_error x" if "opt \<in> set opts" "check_option story node_id opt = Some x" for opt x
    using that sh check_option_kind by blast
  ultimately show ?thesis
    using for_each_kind[of opts "check_option story node_id" is_value_error e] by blast
qed

lemma check_next_map_entry_None: "check_next_map_entry story node_id t = None \<longleftrightarrow> is_key story t"
  by (cases t) (auto simp: check_next_map_entry_def)

lemma check_next_map_entry_kind: "check_next_map_entry story node_id t = Some e \<Longrightarrow> is_value_error e"
  by (cases t) (auto simp: check_next_map_entry_def split: if_splits)

lemma check_next_map_None:
  "check_next_map story node_id nm = None \<longleftrightarrow> (\<exists>ts. nm = JArr ts \<and> list_all (is_key story) ts)"
  by (cases nm) (auto simp: check_next_map_def for_each_None check_next_map_entry_None list_all_iff)

lemma check_next_map_kind: "check_next_map story node_id nm = Some e \<Longrightarrow> is_value_error e"
proof (cases nm)
  case (JArr ts)
  assume "check_next_map story node_id nm = Some e"
  with JArr have "for_each (check_next_map_entry story node_id) ts = Some e"
    by (simp add: check_next_map_def)
  then show ?thesis
    using for_each_kind[of ts "check_next_map_entry story node_id" is_value_error e]
      check_next_map_entry_kind by blast
qed (auto simp: check_next_map_def)

lemma check_next_map_keys:
  "list_all (is_key story) ts \<Longrightarrow> check_next_map story node_id (JArr ts) = None"
  by (simp add: check_next_map_None)

lemma check_routing_None:
  "check_routing story node_id (JObj node) = None \<longleftrightarrow>
     (\<not> hint_without_route node
      \<and> (dict_get node ''next_map'' JNull = JNull
           \<or> (\<exists>ts. dict_get node ''next_map'' JNull = JArr ts \<and> list_all (is_key story) ts))
      \<and> (dict_get node ''next'' JNull = JNull \<or> is_key story (dict_get node ''next'' JNull)))"
  by (cases "dict_get node ''next'' JNull")
     (auto simp: check_routing_def hint_without_route_def dict_get_def check_next_map_None
                 check_next_map_keys
           split: option.splits if_splits)

lemma check_routing_kind:
  assumes "hashable (dict_get node ''next'' JNull)"
    and "check_routing story node_id (JObj node) = Some e"
  shows "is_value_error e"
  using assms
  by (cases "dict_get node ''next'' JNull")
     (auto simp: check_routing_def dict_get_def split: option.splits if_splits
           dest: check_next_map_kind)

lemma check_text_and_options_kind:
  "check_text_and_options node_id (JObj node) = Some e \<Longrightarrow> is_value_error e"
  by (auto simp: check_text_and_options_def key_in_dict split: option.splits if_splits)

lemma is_key_is_str: "is_key story r \<Longrightarrow> is_str r"
  by (cases r) auto

lemma node_checks_None:
  "(check_text_and_options node_id n = None \<and> check_options story node_id n = None
      \<and> check_routing story node_id n = None) \<longleftrightarrow> \<not> node_violation story n"
proof (cases "\<exists>node. n = JObj node \<and> \<not> lacks_string_text node \<and> \<not> options_not_a_list node")
  case False
  then have "check_text_and_options node_id n \<noteq> None"
    by (simp add: check_text_and_options_None)
  moreover have "node_violation story n"
    using False by (cases n) auto
  ultimately show ?thesis by simp
next
  case True
  then obtain node where n: "n = JObj node" and t: "\<not> lacks_string_text node"
    and o: "\<not> options_not_a_list node" by blast
  have 1: "check_text_and_options node_id n = None"
    using True by (simp add: check_text_and_options_None)
  have "(list_all (is_key story) (filter truthy (option_nexts node))
         \<and> (dict_get node ''next_map'' JNull = JNull
             \<or> (\<exists>ts. dict_get node ''next_map'' JNull = JArr ts \<and> list_all (is_key story) ts))
         \<and> (dict_get node ''next'' JNull = JNull \<or> is_key story (dict_get node ''next'' JNull)))
        \<longleftrightarrow> (\<not> dangling_reference story node \<and> \<not> next_map_not_strings node)"
    by (cases "dict_get node ''next_map'' JNull")
       (auto simp: dangling_reference_def next_map_not_strings_def checked_references_def
                   next_map_entries_def list_all_iff dest: is_key_is_str)
  then show ?thesis
    unfolding n using 1 t o
    by (auto simp: n check_options_None[OF o] check_routing_None)
qed

lemma validate_Inr_iff: "validate story = Inr s \<longleftrightarrow> (s = story \<and> \<not> story_violation story)"
proof -
  have "validate story = Inr s \<longleftrightarrow>
      (s = story
       \<and> (\<forall>x\<in>set story. (case x of (i, n) \<Rightarrow> check_text_and_options i n) = None)
       \<and> (\<forall>x\<in>set story. (case x of (i, n) \<Rightarrow> check_options story i n) = None)
       \<and> (\<forall>x\<in>set story. (case x of (i, n) \<Rightarrow> check_routing story i n) = None))"
    by (auto simp: validate_def for_each_None[symmetric] split: option.splits)
  also have "\<dots> \<longleftrightarrow>
      (s = story
       \<and> (\<forall>(i, n)\<in>set story. check_text_and_options i n = None
             \<and> check_options story i n = None \<and> check_routing story i n = None))"
    by fastforce
  also have "\<dots> \<longleftrightarrow> (s = story \<and> (\<forall>(i, n)\<in>set story. \<not> node_violation story n))"
    by (simp only: node_checks_None)
  finally show ?thesis
    by (auto simp: story_violation_def list_ex_iff)
qed

lemma validate_kind:
  assumes sh: "story_shaped story" and v: "validate story = Inl e"
  shows "is_value_error e"
proof -
  have obj: "\<exists>node. n = JObj node \<and> node_shaped (JObj node)" if "(i, n) \<in> set story" for i n
    using sh that by (cases n) (auto simp: story_shaped_def list_all_iff)
  let ?c1 = "\<lambda>(i, n). check_text_and_options i n"
  let ?c2 = "\<lambda>(i, n). check_options story i n"
  let ?c3 = "\<lambda>(i, n). check_routing story i n"
  have k1: "is_value_error x" if "p \<in> set story" "?c1 p = Some x" for p x
  proof -
    obtain i n where p: "p = (i, n)" by (cases p)
    with that obj obtain node where n: "n = JObj node" by blast
    then show ?thesis
      using that p check_text_and_options_kind by auto
  qed
  have k3: "is_value_error x" if "p \<in> set story" "?c3 p = Some x" for p x
  proof -
    obtain i n where p: "p = (i, n)" by (cases p)
    with that obj obtain node where n: "n = JObj node" "node_shaped (JObj node)" by blast
    then have "hashable (dict_get node ''next'' JNull)" by simp
    then show ?thesis
      using that p n check_routing_kind by auto
  qed
  show ?thesis
  proof (cases "for_each ?c1 story")
    case (Some x)
    with v have "x = e" by (simp add: validate_def)
    with Some k1 show ?thesis
      using for_each_kind[of story ?c1 is_value_error e] by blast
  next
    case None
    have k2: "is_value_error x" if "p \<in> set story" "?c2 p = Some x" for p x
    proof -
      obtain i n where p: "p = (i, n)" by (cases p)
      with that obj obtain node where n: "n = JObj node" "node_shaped (JObj node)" by blast
      from None that(1) p have "check_text_and_options i n = None"
        by (auto simp: for_each_None)
      then have "\<not> options_not_a_list node"
        using n by (simp add: check_text_and_options_None)
      then show ?thesis
        using that p n check_options_kind by auto
    qed
    show ?thesis
    proof (cases "for_each ?c2 story")
      case (Some x)
      with v None have "x = e" by (simp add: validate_def)
      with Some k2 show ?thesis
        using for_each_kind[of story ?c2 is_value_error e] by blast
    next
      case c2: None
      with v None have "for_each ?c3 story = Some e"
        by (simp add: validate_def split: option.splits)
      with k3 show ?thesis
        using for_each_kind[of story ?c3 is_value_error e] by blast
    qed
  qed
qed

lemma validate_total: "validate story = Inr story \<or> (\<exists>e. validate story = Inl e)"
  by (auto simp: validate_def split: option.splits)

lemma load_story_Inr_iff:
  "load_story file = Inr story \<longleftrightarrow>
     (\<exists>text. file = Some text \<and> json_loads text = Some (JObj story) \<and> \<not> story_violation story)"
  by (auto simp: load_story_def validate_Inr_iff split: option.splits json.splits)

lemma accepted_node:
  "load_story file = Inr story \<Longrightarrow> (node_id, n) \<in> set story \<Longrightarrow> \<not> node_violation story n"
  by (auto simp: load_story_Inr_iff story_violation_def list_ex_iff)

lemma references_checked:
  "list_all (\<lambda>v. v = JNull \<or> truthy v) (option_nexts node) \<Longrightarrow>
     references node = checked_references node"
proof -
  assume "list_all (\<lambda>v. v = JNull \<or> truthy v) (option_nexts node)"
  then have "filter (\<lambda>v. v \<noteq> JNull) (option_nexts node) = filter truthy (option_nexts node)"
    by (intro filter_cong) (auto simp: list_all_iff)
  then show ?thesis
    by (simp add: references_def checked_references_def)
qed

lemma load_story_violation:
  "json_loads text = Some (JObj story) \<Longrightarrow> story_violation story \<Longrightarrow>
     \<exists>e. load_story (Some text) = Inl e"
  using validate_Inr_iff[of story story] validate_total[of story]
  by (auto simp: load_story_def)

lemma load_story_kind:
  "json_loads text = Some (JObj story) \<Longrightarrow> story_shaped story \<Longrightarrow>
     load_story (Some text) = Inl e \<Longrightarrow> is_value_error e"
  using validate_kind[of story e] by (simp add: load_story_def)

lemma button_for_label:
  "i < length opts \<Longrightarrow> has_label (opts ! i) \<Longrightarrow>
     button_for i opts = Inr (Shown (label_of (opts ! i)) (opts ! i))"
  by (cases "opts ! i")
     (auto simp: button_for_def dict_get_def key_in_dict split: option.splits)

lemma button_for_beyond: "length opts \<le> i \<Longrightarrow> button_for i opts = Inr Hidden"
  by (simp add: button_for_def)

lemma set_buttons_labelled:
  assumes "list_all has_label (take 2 opts)"
  shows "set_buttons (JArr opts) u =
           Inr (u\<lparr>btn1 := (if opts = [] then Hidden else Shown (label_of (opts ! 0)) (opts ! 0)),
                  btn2 := (if length opts < 2 then Hidden else Shown (label_of (opts ! 1)) (opts ! 1))\<rparr>)"
proof -
  have 0: "button_for 0 opts = Inr (if opts = [] then Hidden else Shown (label_of (opts ! 0)) (opts ! 0))"
    using assms by (cases opts) (auto simp: button_for_label button_for_beyond)
  have 1: "button_for 1 opts = Inr (if length opts < 2 then Hidden else Shown (label_of (opts ! 1)) (opts ! 1))"
  proof (cases "length opts < 2")
    case True
    then show ?thesis by (simp add: button_for_beyond)
  next
    case False
    then have "opts ! 1 \<in> set (take 2 opts)"
      by (metis One_nat_def in_set_conv_nth length_take lessI min.absorb2 not_less nth_take
            numeral_2_eq_2)
    with assms have "has_label (opts ! 1)" by (simp add: list_all_iff)
    with False show ?thesis by (simp add: button_for_label)
  qed
  show ?thesis unfolding set_buttons.simps 0 1 by simp
qed

lemma choices_shown_buttons:
  "choices_shown (u\<lparr>btn1 := (if opts = [] then Hidden else Shown (l0) (opts ! 0)),
                    btn2 := (if length opts < 2 then Hidden else Shown (l1) (opts ! 1))\<rparr>)
     = take 2 opts"
  by (cases opts; cases "tl opts") (auto simp: choices_shown_def)

lemma labels_shown_buttons:
  "labels_shown (u\<lparr>btn1 := (if opts = [] then Hidden else Shown (f (opts ! 0)) (opts ! 0)),
                   btn2 := (if length opts < 2 then Hidden else Shown (f (opts ! 1)) (opts ! 1))\<rparr>)
     = map f (take 2 opts)"
  by (cases opts; cases "tl opts") (auto simp: labels_shown_def)

lemma set_buttons_request_free:
  "show_node node_id u story = Inr (u', rq) \<Longrightarrow> map_of story node_id = Some (JObj node) \<Longrightarrow>
     truthy (dict_get node ''options'' (JArr [])) \<Longrightarrow> rq = None"
  by (auto simp: show_node_def Let_def split: sum.splits option.splits)

lemma load_forest: "load_story (Some forest_text) = Inr forest"
  by code_simp

lemma mapped_Nil: "mapped story tgts [] = []" "mapped story [] labels = []"
  by (simp_all add: mapped_def)

lemma mapped_Cons:
  "mapped story (t # ts) (l # ls) =
     (if t \<in> set (map fst story) then [choice l t] else []) @ mapped story ts ls"
  by (simp add: mapped_def enumerate_Suc_eq filter_map comp_def split_def)

lemma mapped_zip:
  "mapped story tgts labels =
     map (\<lambda>(l, t). choice l t) (filter (\<lambda>(l, t). t \<in> set (map fst story)) (zip labels tgts))"
proof (induction labels arbitrary: tgts)
  case Nil
  show ?case by (simp add: mapped_Nil)
next
  case (Cons l ls)
  show ?case
    by (cases tgts) (simp_all add: mapped_Nil mapped_Cons Cons.IH)
qed

lemma mapped_all_keys:
  "set tgts \<subseteq> set (map fst story) \<Longrightarrow> mapped story tgts labels = map2 choice labels tgts"
proof -
  assume a: "set tgts \<subseteq> set (map fst story)"
  have "filter (\<lambda>(l, t). t \<in> set (map fst story)) (zip labels tgts) = zip labels tgts"
    using a by (auto simp: filter_id_conv dest: set_zip_rightD)
  then show ?thesis
    by (simp add: mapped_zip)
qed

lemma zip_replicate_right:
  "length xs \<le> m \<Longrightarrow> zip xs (replicate m y) = map (\<lambda>x. (x, y)) xs"
proof (induction xs arbitrary: m)
  case Nil
  show ?case by simp
next
  case (Cons x xs)
  then obtain k where "m = Suc k" by (cases m) auto
  with Cons show ?case by simp
qed

lemma mapped_replicate:
  "y \<in> set (map fst story) \<Longrightarrow>
     mapped story (replicate (max 1 (length labels)) y) labels = map (\<lambda>l. choice l y) labels"
proof -
  assume "y \<in> set (map fst story)"
  then have "set (replicate (max 1 (length labels)) y) \<subseteq> set (map fst story)"
    by auto
  then have "mapped story (replicate (max 1 (length labels)) y) labels
               = map2 choice labels (replicate (max 1 (length labels)) y)"
    by (rule mapped_all_keys)
  also have "\<dots> = map (\<lambda>l. choice l y) labels"
    by (simp add: zip_replicate_right)
  finally show ?thesis .
qed

lemma is_key_str_or_empty: "is_key story r \<Longrightarrow> str_or_empty r \<in> fst ` set story"
  by (cases r) auto

lemma targets_next_map:
  assumes "dict_get node ''next_map'' JNull = JArr ts" and "ts \<noteq> []"
    and "list_all (is_key story) ts"
  shows "targets node_id node labels = map str_or_empty ts"
    and "set (targets node_id node labels) \<subseteq> set (map fst story)"
proof -
  from assms(1,2) obtain x xs where m: "map_of node ''next_map'' = Some (JArr (x # xs))" and ts: "ts = x # xs"
    by (cases ts) (auto simp: dict_get_def split: option.splits)
  have "filter is_str ts = ts"
    using assms(3) by (auto simp: filter_id_conv list_all_iff dest: is_key_is_str)
  then show 1: "targets node_id node labels = map str_or_empty ts"
    using m ts by (simp add: targets_def)
  show "set (targets node_id node labels) \<subseteq> set (map fst story)"
    unfolding 1 using assms(3) by (auto simp: list_all_iff intro: is_key_str_or_empty)
qed

lemma targets_without_next_map:
  assumes "\<not> (\<exists>ts. dict_get node ''next_map'' JNull = JArr ts \<and> ts \<noteq> [])"
  shows "targets node_id node labels =
           (case dict_get node ''next'' JNull of
              JStr s \<Rightarrow> replicate (max 1 (length labels)) s
            | _ \<Rightarrow> replicate (max 1 (length labels)) node_id)"
proof (cases "map_of node ''next_map''")
  case None
  then show ?thesis by (simp add: targets_def)
next
  case (Some v)
  show ?thesis
  proof (cases v)
    case (JArr xs)
    with Some assms have "xs = []" by (simp add: dict_get_def)
    with Some JArr show ?thesis by (simp add: targets_def)
  qed (simp_all add: targets_def Some)
qed

lemma targets_next:
  assumes "\<not> (\<exists>ts. dict_get node ''next_map'' JNull = JArr ts \<and> ts \<noteq> [])"
    and "dict_get node ''next'' JNull = JStr n"
  shows "targets node_id node labels = replicate (max 1 (length labels)) n"
  by (simp add: targets_without_next_map[OF assms(1)] assms(2))

lemma targets_self:
  assumes "\<not> (\<exists>ts. dict_get node ''next_map'' JNull = JArr ts \<and> ts \<noteq> [])"
    and "\<not> is_str (dict_get node ''next'' JNull)"
  shows "targets node_id node labels = replicate (max 1 (length labels)) node_id"
  using assms(2)
  by (cases "dict_get node ''next'' JNull") (simp_all add: targets_without_next_map[OF assms(1)])

lemma choice_label: "has_label (choice l t)" "label_of (choice l t) = JStr l"
  by (simp_all add: choice_def dict_get_def)

lemma press_choice: "press (Shown l (choice lab tgt)) u story = show_node tgt u story"
  by (simp add: press_def choice_def)

lemma text_plus_str: "map_of node ''text'' = Some (JStr t) \<Longrightarrow> text_plus node s = Inr (t @ s)"
  by (simp add: text_plus_def)

lemma set_buttons_shown:
  assumes "list_all has_label (take 2 cs)"
  shows "\<exists>u'. set_buttons (JArr cs) u = Inr u' \<and> choices_shown u' = take 2 cs
           \<and> labels_shown u' = map label_of (take 2 cs)
           \<and> box u' = box u \<and> status u' = status u \<and> dialogs u' = dialogs u"
proof -
  let ?w = "u\<lparr>btn1 := (if cs = [] then Hidden else Shown (label_of (cs ! 0)) (cs ! 0)),
               btn2 := (if length cs < 2 then Hidden else Shown (label_of (cs ! 1)) (cs ! 1))\<rparr>"
  have "set_buttons (JArr cs) u = Inr ?w"
    using assms by (rule set_buttons_labelled)
  moreover have "choices_shown ?w = take 2 cs"
    by (rule choices_shown_buttons)
  moreover have "labels_shown ?w = map label_of (take 2 cs)"
    by (rule labels_shown_buttons)
  moreover have "box ?w = box u \<and> status ?w = status u \<and> dialogs ?w = dialogs u"
    by simp
  ultimately show ?thesis by blast
qed

lemma mapped_labelled: "list_all has_label (mapped story tgts labels)"
  by (auto simp: mapped_zip list_all_iff choice_label)

lemma update_mapped:
  assumes "map_of (rq_node rq) ''text'' = Some (JStr t)" and "m \<noteq> []"
    and "list_all has_label m"
  shows "\<exists>u'. update rq scene labels m u = Inr u'
           \<and> box u' = JStr (t @ ''\<newline>\<newline>'' @ scene @ debug_text (rq_node rq) labels)
           \<and> choices_shown u' = take 2 m \<and> labels_shown u' = map label_of (take 2 m)
           \<and> status u' = status u \<and> dialogs u' = dialogs u"
proof -
  let ?t = "t @ ''\<newline>\<newline>'' @ scene @ debug_text (rq_node rq) labels"
  have tp: "text_plus (rq_node rq) (''\<newline>\<newline>'' @ scene @ debug_text (rq_node rq) labels) = Inr ?t"
    using assms(1) by (rule text_plus_str)
  have u: "update rq scene labels m u = set_buttons (JArr (take 2 m)) (render_text (JStr ?t) u)"
    using assms(2) unfolding update_def tp by (simp only: sum.case Let_def if_True simp_thms)
  have "list_all has_label (take 2 (take 2 m))"
    using assms(3) by (auto simp: list_all_iff dest: in_set_takeD)
  from set_buttons_shown[OF this, of "render_text (JStr ?t) u"]
  obtain u' where "set_buttons (JArr (take 2 m)) (render_text (JStr ?t) u) = Inr u'"
    and "choices_shown u' = take 2 m" and "labels_shown u' = map label_of (take 2 m)"
    and "box u' = JStr ?t" and "status u' = status u" and "dialogs u' = dialogs u"
    by (auto simp: render_text_def)
  then show ?thesis
    unfolding u by blast
qed

lemma first_two:
  "xs \<noteq> [] \<Longrightarrow> [f (xs ! 0)] @ (if 1 < length xs then [f (xs ! 1)] else []) = map f (take 2 xs)"
  by (cases xs; cases "tl xs") auto

lemma update_unrouted:
  assumes "map_of (rq_node rq) ''text'' = Some (JStr t)"
  shows "\<exists>u'. update rq scene labels [] u = Inr u'
           \<and> box u' = JStr (t @ ''\<newline>\<newline>'' @ scene @ debug_text (rq_node rq) labels)
           \<and> choices_shown u' =
               (if labels = [] then [choice ''Continue'' (rq_node_id rq)]
                else map (\<lambda>l. choice l (rq_node_id rq)) (take 2 labels))
           \<and> labels_shown u' = (if labels = [] then [JStr ''Continue''] else map JStr (take 2 labels))
           \<and> status u' = status u \<and> dialogs u' = dialogs u"
proof -
  let ?t = "t @ ''\<newline>\<newline>'' @ scene @ debug_text (rq_node rq) labels"
  let ?cs = "if labels = [] then [choice ''Continue'' (rq_node_id rq)]
             else map (\<lambda>l. choice l (rq_node_id rq)) (take 2 labels)"
  have tp: "text_plus (rq_node rq) (''\<newline>\<newline>'' @ scene @ debug_text (rq_node rq) labels) = Inr ?t"
    using assms by (rule text_plus_str)
  have u: "update rq scene labels [] u = set_buttons (JArr ?cs) (render_text (JStr ?t) u)"
  proof (cases "labels = []")
    case True
    then show ?thesis
      unfolding update_def tp by (simp only: sum.case Let_def if_True if_False simp_thms)
  next
    case False
    from first_two[OF False, of "\<lambda>l. choice l (rq_node_id rq)"] False show ?thesis
      unfolding update_def tp by (simp only: sum.case Let_def if_True if_False simp_thms)
  qed
  have l: "list_all has_label (take 2 ?cs)"
    by (auto simp: list_all_iff choice_label dest: in_set_takeD)
  have t2: "take 2 ?cs = ?cs"
    by simp
  have lab: "map label_of ?cs = (if labels = [] then [JStr ''Continue''] else map JStr (take 2 labels))"
    by (simp add: choice_label comp_def)
  from set_buttons_shown[OF l, of "render_text (JStr ?t) u"]
  obtain u' where "set_buttons (JArr ?cs) (render_text (JStr ?t) u) = Inr u'"
    and "choices_shown u' = ?cs" and "labels_shown u' = map label_of ?cs"
    and "box u' = JStr ?t" and "status u' = status u" and "dialogs u' = dialogs u"
    unfolding t2 by (auto simp: render_text_def)
  then show ?thesis
    unfolding u lab by blast
qed


text \<open>
  A node with authored options: \<^verbatim>\<open>show_node\<close> never starts the generation, it passes the
  authored list to \<^verbatim>\<open>set_buttons\<close>, and when the first two options have a label the window
  shows the node's text and these options.
\<close>

lemma show_node_authored:
  assumes "map_of story node_id = Some (JObj node)"
    and "dict_get node ''options'' (JArr []) = JArr opts" and "opts \<noteq> []"
  shows "(\<forall>u' rq. show_node node_id u story = Inr (u', rq) \<longrightarrow> rq = None)
       \<and> (map_of node ''text'' = Some t \<longrightarrow>
            show_node node_id u story =
              (case set_buttons (JArr opts) (render_text t (u\<lparr>status := ''Node: '' @ node_id\<rparr>)) of
                 Inl e \<Rightarrow> Inl e
               | Inr u' \<Rightarrow> Inr (u', None)))
       \<and> (map_of node ''text'' = Some t \<and> list_all has_label (take 2 opts) \<longrightarrow>
            (\<exists>u'. show_node node_id u story = Inr (u', None)
                \<and> box u' = t \<and> choices_shown u' = take 2 opts
                \<and> labels_shown u' = map label_of (take 2 opts)
                \<and> status u' = ''Node: '' @ node_id \<and> dialogs u' = dialogs u))"
proof (intro conjI allI impI)
  have tr: "truthy (dict_get node ''options'' (JArr []))"
    using assms(2,3) by simp
  show "rq = None" if "show_node node_id u story = Inr (u', rq)" for u' rq
    using that assms(1) tr by (rule set_buttons_request_free)
  have eq: "show_node node_id u story =
              (case set_buttons (JArr opts) (render_text t (u\<lparr>status := ''Node: '' @ node_id\<rparr>)) of
                 Inl e \<Rightarrow> Inl e
               | Inr u' \<Rightarrow> Inr (u', None))" if "map_of node ''text'' = Some t"
    using that assms by (simp add: show_node_def)
  then show "show_node node_id u story =
              (case set_buttons (JArr opts) (render_text t (u\<lparr>status := ''Node: '' @ node_id\<rparr>)) of
                 Inl e \<Rightarrow> Inl e
               | Inr u' \<Rightarrow> Inr (u', None))" if "map_of node ''text'' = Some t"
    using that .
  show "\<exists>u'. show_node node_id u story = Inr (u', None)
                \<and> box u' = t \<and> choices_shown u' = take 2 opts
                \<and> labels_shown u' = map label_of (take 2 opts)
                \<and> status u' = ''Node: '' @ node_id \<and> dialogs u' = dialogs u"
    if h: "map_of node ''text'' = Some t \<and> list_all has_label (take 2 opts)"
  proof -
    let ?v = "render_text t (u\<lparr>status := ''Node: '' @ node_id\<rparr>)"
    let ?w = "?v\<lparr>btn1 := (if opts = [] then Hidden else Shown (label_of (opts ! 0)) (opts ! 0)),
                  btn2 := (if length opts < 2 then Hidden else Shown (label_of (opts ! 1)) (opts ! 1))\<rparr>"
    from h have "list_all has_label (take 2 opts)" ..
    then have sb: "set_buttons (JArr opts) ?v = Inr ?w"
      by (rule set_buttons_labelled)
    from h have tx: "map_of node ''text'' = Some t" ..
    have "show_node node_id u story = Inr (?w, None)"
      by (simp only: eq[OF tx] sb sum.case)
    moreover have "choices_shown ?w = take 2 opts"
      by (rule choices_shown_buttons)
    moreover have "labels_shown ?w = map label_of (take 2 opts)"
      by (rule labels_shown_buttons)
    moreover have "box ?w = t \<and> status ?w = ''Node: '' @ node_id \<and> dialogs ?w = dialogs u"
      by (simp add: render_text_def)
    ultimately show ?thesis by blast
  qed
qed

section \<open>The claims\<close>

text \<open>
  C3 (the code fails it). The claim: for every raw output, \<^verbatim>\<open>parse_scene_and_options_json\<close>
  returns and never raises. The code checks the types of the two fields but not that the
  decoded value is a dict: the raw output \<^verbatim>\<open>["A","B"]\<close> is valid JSON, the first
  \<^verbatim>\<open>json.loads\<close> succeeds with a list, and \<^verbatim>\<open>data.get\<close> raises AttributeError.
\<close>

theorem parse_raises_on_json_list:
  \<open>parse_scene_and_options_json ''["A","B"]'' = Inl AttributeError\<close>
  by code_simp

text \<open>
  C4. For every raw output, \<^verbatim>\<open>parse_scene_and_options_json\<close> first decodes the whole text; when
  that fails it decodes the span found by the search, which is the text from the first
  opening brace to the last closing brace (and there is none exactly when no opening brace is
  followed by a closing brace); a result has at most two labels, which are the first two
  strings of the options in their order, stripped; the scene and every label are trimmed, and
  stripping removes white space only. The two examples of the specification are evaluated.
\<close>

theorem parse_strict_then_brace_span:
  \<open>(json_loads text = Some data \<longrightarrow> parse_scene_and_options_json text = scene_and_options data)
   \<and> (json_loads text = None \<longrightarrow>
        parse_scene_and_options_json text =
          (case re_search_braces text of
             None \<Rightarrow> Inr ([], [])
           | Some m \<Rightarrow> (case json_loads m of None \<Rightarrow> Inr ([], []) | Some d \<Rightarrow> scene_and_options d)))
   \<and> (re_search_braces text = Some m \<longleftrightarrow>
        (\<exists>pre inner post. text = pre @ m @ post \<and> m = CHR ''{'' # inner @ ''}''
           \<and> CHR ''{'' \<notin> set pre \<and> CHR ''}'' \<notin> set post))
   \<and> (re_search_braces text = None \<longleftrightarrow> \<not> (\<exists>a b c. text = a @ CHR ''{'' # b @ CHR ''}'' # c))
   \<and> (parse_scene_and_options_json text = Inr (scene, labels) \<longrightarrow>
        length labels \<le> 2 \<and> trimmed scene \<and> list_all trimmed labels)
   \<and> (map_of kvs ''scene'' = Some (JStr sc) \<and> map_of kvs ''options'' = Some (JArr (map JStr ls)) \<longrightarrow>
        scene_and_options (JObj kvs) = Inr (py_strip sc, map py_strip (take 2 ls)))
   \<and> (\<exists>xs ys. set xs \<subseteq> set py_whitespace \<and> set ys \<subseteq> set py_whitespace
          \<and> s = concat xs @ py_strip s @ concat ys)
   \<and> parse_scene_and_options_json ''noise {"scene":"S","options":["A","B"]} trailing''
        = Inr (''S'', [''A'', ''B''])
   \<and> parse_scene_and_options_json ''garbage'' = Inr ([], [])\<close>
proof (intro conjI)
  show "json_loads text = Some data \<longrightarrow> parse_scene_and_options_json text = scene_and_options data"
    by (simp add: parse_scene_and_options_json_def)
  show "json_loads text = None \<longrightarrow>
        parse_scene_and_options_json text =
          (case re_search_braces text of
             None \<Rightarrow> Inr ([], [])
           | Some m \<Rightarrow> (case json_loads m of None \<Rightarrow> Inr ([], []) | Some d \<Rightarrow> scene_and_options d))"
    by (simp add: parse_scene_and_options_json_def)
  show "re_search_braces text = Some m \<longleftrightarrow>
        (\<exists>pre inner post. text = pre @ m @ post \<and> m = CHR ''{'' # inner @ ''}''
           \<and> CHR ''{'' \<notin> set pre \<and> CHR ''}'' \<notin> set post)"
    by (rule re_search_braces_Some_iff)
  show "re_search_braces text = None \<longleftrightarrow> \<not> (\<exists>a b c. text = a @ CHR ''{'' # b @ CHR ''}'' # c)"
    by (rule re_search_braces_None_iff)
  show "parse_scene_and_options_json text = Inr (scene, labels) \<longrightarrow>
        length labels \<le> 2 \<and> trimmed scene \<and> list_all trimmed labels"
    using parse_shape by blast
  show "map_of kvs ''scene'' = Some (JStr sc) \<and> map_of kvs ''options'' = Some (JArr (map JStr ls)) \<longrightarrow>
        scene_and_options (JObj kvs) = Inr (py_strip sc, map py_strip (take 2 ls))"
    using strs_or_empty_strings[of ls] by (simp add: scene_and_options_def)
  show "\<exists>xs ys. set xs \<subseteq> set py_whitespace \<and> set ys \<subseteq> set py_whitespace
          \<and> s = concat xs @ py_strip s @ concat ys"
    by (rule py_strip_decomp)
  show \<open>parse_scene_and_options_json ''noise {"scene":"S","options":["A","B"]} trailing''
        = Inr (''S'', [''A'', ''B''])\<close>
    by code_simp
  show "parse_scene_and_options_json ''garbage'' = Inr ([], [])"
    by code_simp
qed

theorem parse_strict_then_brace_span_witness:
  \<open>json_loads ''{"scene":" S ","options":["A ","B","C"]}''
     = Some (JObj [(''scene'', JStr '' S ''), (''options'', JArr [JStr ''A '', JStr ''B'', JStr ''C''])])
   \<and> parse_scene_and_options_json ''{"scene":" S ","options":["A ","B","C"]}''
     = scene_and_options (JObj [(''scene'', JStr '' S ''), (''options'', JArr [JStr ''A '', JStr ''B'', JStr ''C''])])
   \<and> json_loads ''see {"scene":" S ","options":["A ","B","C"]} end'' = None
   \<and> re_search_braces ''see {"scene":" S ","options":["A ","B","C"]} end''
     = Some ''{"scene":" S ","options":["A ","B","C"]}''
   \<and> parse_scene_and_options_json ''see {"scene":" S ","options":["A ","B","C"]} end''
     = Inr (''S'', [''A'', ''B''])
   \<and> length [''A'', ''B''] \<le> (2 :: nat) \<and> trimmed ''S'' \<and> list_all trimmed [''A'', ''B'']\<close>
proof -
  note T = parse_strict_then_brace_span
  have d: \<open>json_loads ''{"scene":" S ","options":["A ","B","C"]}''
     = Some (JObj [(''scene'', JStr '' S ''), (''options'', JArr [JStr ''A '', JStr ''B'', JStr ''C''])])\<close>
    by code_simp
  from T[THEN conjunct1] d
  have 1: \<open>parse_scene_and_options_json ''{"scene":" S ","options":["A ","B","C"]}''
     = scene_and_options (JObj [(''scene'', JStr '' S ''), (''options'', JArr [JStr ''A '', JStr ''B'', JStr ''C''])])\<close>
    by (rule mp)
  have n: \<open>json_loads ''see {"scene":" S ","options":["A ","B","C"]} end'' = None\<close>
    by code_simp
  have r: \<open>re_search_braces ''see {"scene":" S ","options":["A ","B","C"]} end''
     = Some ''{"scene":" S ","options":["A ","B","C"]}''\<close>
    by code_simp
  have p: \<open>parse_scene_and_options_json ''see {"scene":" S ","options":["A ","B","C"]} end''
     = Inr (''S'', [''A'', ''B''])\<close>
    by code_simp
  from T[THEN conjunct2, THEN conjunct2, THEN conjunct2, THEN conjunct2, THEN conjunct1] p
  have 5: "length [''A'', ''B''] \<le> (2 :: nat) \<and> trimmed ''S'' \<and> list_all trimmed [''A'', ''B'']"
    by (rule mp)
  show ?thesis
    by (intro conjI d 1 n r p 5[THEN conjunct1] 5[THEN conjunct2, THEN conjunct1]
          5[THEN conjunct2, THEN conjunct2])
qed

text \<open>
  C10. The story is first shown at the fixed identifier \<^verbatim>\<open>"start"\<close>, and \<^verbatim>\<open>load_story\<close> does not
  check that it is a key: for every story it accepts that has no key \<^verbatim>\<open>"start"\<close>, the lookup
  \<^verbatim>\<open>story["start"]\<close> of the first \<^verbatim>\<open>show_node\<close> raises KeyError, which nothing catches.
\<close>

theorem accepted_story_without_start_raises:
  "load_story file = Inr story \<Longrightarrow> ''start'' \<notin> set (map fst story) \<Longrightarrow>
     show_node ''start'' u story = Inl (KeyError (JStr ''start''))
     \<and> build_ui file = Crashed (KeyError (JStr ''start''))"
proof -
  assume a: "load_story file = Inr story" and b: "''start'' \<notin> set (map fst story)"
  from b have "map_of story ''start'' = None"
    by (simp add: map_of_eq_None_iff)
  then have "show_node ''start'' v story = Inl (KeyError (JStr ''start''))" for v
    by (simp add: show_node_def)
  then show ?thesis
    using a by (simp add: build_ui_def)
qed

theorem accepted_story_without_start_raises_witness:
  \<open>load_story (Some ''{"intro": {"text": "Once."}}'') = Inr [(''intro'', JObj [(''text'', JStr ''Once.'')])]
   \<and> ''start'' \<notin> set (map fst [(''intro'', JObj [(''text'', JStr ''Once.'')])])
   \<and> show_node ''start'' initial_ui [(''intro'', JObj [(''text'', JStr ''Once.'')])]
       = Inl (KeyError (JStr ''start''))
   \<and> build_ui (Some ''{"intro": {"text": "Once."}}'') = Crashed (KeyError (JStr ''start''))\<close>
proof -
  have 1: \<open>load_story (Some ''{"intro": {"text": "Once."}}'')
             = Inr [(''intro'', JObj [(''text'', JStr ''Once.'')])]\<close>
    by code_simp
  have 2: "''start'' \<notin> set (map fst [(''intro'', JObj [(''text'', JStr ''Once.'')])])"
    by simp
  note 3 = accepted_story_without_start_raises[OF 1 2, of initial_ui]
  show ?thesis
    by (intro conjI 1 2 3[THEN conjunct1] 3[THEN conjunct2])
qed

text \<open>
  C2 (corrected). The claim: in every story that \<^verbatim>\<open>load_story\<close> returns, every identifier
  referenced through \<^verbatim>\<open>options[].next\<close>, \<^verbatim>\<open>next\<close> or \<^verbatim>\<open>next_map[]\<close> is a key. The check of an
  option's target is guarded by \<^verbatim>\<open>if nxt and ...\<close>, so a target that is not truthy is not
  looked up: a story whose option has the target \<^verbatim>\<open>""\<close> is accepted, and pressing that option
  raises KeyError. What holds: every node of an accepted story is an object, and every
  checked reference (an option's truthy \<^verbatim>\<open>next\<close>, a \<^verbatim>\<open>next\<close> that is not None, every entry of
  \<^verbatim>\<open>next_map\<close>) is a key; so are all references of a node whose options have truthy targets or
  none.
\<close>

theorem accepted_story_checked_references_are_keys:
  "load_story file = Inr story \<Longrightarrow> (node_id, n) \<in> set story \<Longrightarrow>
     \<exists>node. n = JObj node
       \<and> list_all (is_key story) (checked_references node)
       \<and> (list_all (\<lambda>v. v = JNull \<or> truthy v) (option_nexts node) \<longrightarrow>
            list_all (is_key story) (references node))"
proof -
  assume "load_story file = Inr story" and "(node_id, n) \<in> set story"
  then have "\<not> node_violation story n"
    by (rule accepted_node)
  then obtain node where n: "n = JObj node" and c: "list_all (is_key story) (checked_references node)"
    by (cases n) (auto simp: dangling_reference_def)
  from c have "list_all (\<lambda>v. v = JNull \<or> truthy v) (option_nexts node) \<longrightarrow>
            list_all (is_key story) (references node)"
    by (simp add: references_checked)
  with n c show ?thesis by blast
qed

theorem accepted_story_checked_references_are_keys_witness:
  \<open>load_story (Some ''{"start": {"text": "t", "options": [{"label": "go", "next": "end"}, {"label": "wait"}],
                                  "next_hint": "h", "next": "start", "next_map": ["end", "start"]},
                        "end": {"text": "The end."}}'')
   = Inr [(''start'', JObj [(''text'', JStr ''t''),
                            (''options'', JArr [JObj [(''label'', JStr ''go''), (''next'', JStr ''end'')],
                                                JObj [(''label'', JStr ''wait'')]]),
                            (''next_hint'', JStr ''h''), (''next'', JStr ''start''),
                            (''next_map'', JArr [JStr ''end'', JStr ''start''])]),
          (''end'', JObj [(''text'', JStr ''The end.'')])]
   \<and> references [(''text'', JStr ''t''),
                  (''options'', JArr [JObj [(''label'', JStr ''go''), (''next'', JStr ''end'')],
                                      JObj [(''label'', JStr ''wait'')]]),
                  (''next_hint'', JStr ''h''), (''next'', JStr ''start''),
                  (''next_map'', JArr [JStr ''end'', JStr ''start''])]
     = [JStr ''end'', JStr ''start'', JStr ''end'', JStr ''start'']
   \<and> list_all (is_key [(''start'', JObj [(''text'', JStr ''t''),
                            (''options'', JArr [JObj [(''label'', JStr ''go''), (''next'', JStr ''end'')],
                                                JObj [(''label'', JStr ''wait'')]]),
                            (''next_hint'', JStr ''h''), (''next'', JStr ''start''),
                            (''next_map'', JArr [JStr ''end'', JStr ''start''])]),
          (''end'', JObj [(''text'', JStr ''The end.'')])])
        (references [(''text'', JStr ''t''),
                  (''options'', JArr [JObj [(''label'', JStr ''go''), (''next'', JStr ''end'')],
                                      JObj [(''label'', JStr ''wait'')]]),
                  (''next_hint'', JStr ''h''), (''next'', JStr ''start''),
                  (''next_map'', JArr [JStr ''end'', JStr ''start''])])\<close>
proof -
  let ?node = "[(''text'', JStr ''t''),
                  (''options'', JArr [JObj [(''label'', JStr ''go''), (''next'', JStr ''end'')],
                                      JObj [(''label'', JStr ''wait'')]]),
                  (''next_hint'', JStr ''h''), (''next'', JStr ''start''),
                  (''next_map'', JArr [JStr ''end'', JStr ''start''])]"
  let ?story = "[(''start'', JObj ?node), (''end'', JObj [(''text'', JStr ''The end.'')])]"
  have 1: \<open>load_story (Some ''{"start": {"text": "t", "options": [{"label": "go", "next": "end"}, {"label": "wait"}],
                                  "next_hint": "h", "next": "start", "next_map": ["end", "start"]},
                        "end": {"text": "The end."}}'') = Inr ?story\<close>
    by code_simp
  have 2: "(''start'', JObj ?node) \<in> set ?story"
    by simp
  have 3: "list_all (\<lambda>v. v = JNull \<or> truthy v) (option_nexts ?node)"
    by code_simp
  have 4: "references ?node = [JStr ''end'', JStr ''start'', JStr ''end'', JStr ''start'']"
    by code_simp
  from accepted_story_checked_references_are_keys[OF 1 2] 3
  have 5: "list_all (is_key ?story) (references ?node)"
    by blast
  show ?thesis
    by (intro conjI 1 4 5)
qed

theorem accepted_story_with_dangling_option:
  \<open>load_story (Some ''{"start": {"text": "t", "options": [{"label": "go", "next": ""}]}}'')
     = Inr [(''start'', JObj [(''text'', JStr ''t''),
                              (''options'', JArr [JObj [(''label'', JStr ''go''), (''next'', JStr '''')]])])]
   \<and> references [(''text'', JStr ''t''),
                  (''options'', JArr [JObj [(''label'', JStr ''go''), (''next'', JStr '''')]])]
       = [JStr '''']
   \<and> \<not> is_key [(''start'', JObj [(''text'', JStr ''t''),
                              (''options'', JArr [JObj [(''label'', JStr ''go''), (''next'', JStr '''')]])])]
          (JStr '''')
   \<and> build_ui (Some ''{"start": {"text": "t", "options": [{"label": "go", "next": ""}]}}'')
       = Started \<lparr>status = ''Node: start'', box = JStr ''t'',
                   btn1 = Shown (JStr ''go'') (JObj [(''label'', JStr ''go''), (''next'', JStr '''')]),
                   btn2 = Hidden, dialogs = []\<rparr> None
   \<and> press (Shown (JStr ''go'') (JObj [(''label'', JStr ''go''), (''next'', JStr '''')]))
         \<lparr>status = ''Node: start'', box = JStr ''t'',
            btn1 = Shown (JStr ''go'') (JObj [(''label'', JStr ''go''), (''next'', JStr '''')]),
            btn2 = Hidden, dialogs = []\<rparr>
         [(''start'', JObj [(''text'', JStr ''t''),
                            (''options'', JArr [JObj [(''label'', JStr ''go''), (''next'', JStr '''')]])])]
       = Inl (KeyError (JStr ''''))\<close>
  by (intro conjI; code_simp)

text \<open>
  C8 (corrected). The claim: every failure of the loader has one kind of error. The code
  raises FileNotFoundError for a missing file and ValueError for the other violations it
  checks, two kinds by design; \<^verbatim>\<open>build_ui\<close> catches every exception of the loader alike. What
  holds: a missing file gives FileNotFoundError; text that is not JSON and a top-level value
  that is no object give ValueError; a story with one of the violations is rejected, a story
  with none is returned; and for a story of the shape of the data model (nodes and options
  are objects, no target is a list or an object) every rejection is a ValueError. Each error
  carries its cause, and \<^verbatim>\<open>build_ui\<close> exits on each.
\<close>

theorem load_story_error_kinds:
  "load_story None = Inl (FileNotFoundError StoryFileNotFound)
   \<and> (json_loads text = None \<longrightarrow> load_story (Some text) = Inl (ValueError NotValidJSON))
   \<and> (json_loads text = Some v \<and> \<not> is_object v \<longrightarrow>
        load_story (Some text) = Inl (ValueError TopLevelNotObject))
   \<and> (json_loads text = Some (JObj story) \<and> story_violation story \<longrightarrow>
        (\<exists>e. load_story (Some text) = Inl e))
   \<and> (json_loads text = Some (JObj story) \<and> \<not> story_violation story \<longrightarrow>
        load_story (Some text) = Inr story)
   \<and> (json_loads text = Some (JObj story) \<and> story_shaped story \<and> load_story (Some text) = Inl e \<longrightarrow>
        is_value_error e)
   \<and> (load_story file = Inl e \<longrightarrow> build_ui file = Exited e)"
proof (intro conjI impI)
  show "load_story None = Inl (FileNotFoundError StoryFileNotFound)"
    by (simp add: load_story_def)
  show "load_story (Some text) = Inl (ValueError NotValidJSON)" if "json_loads text = None"
    using that by (simp add: load_story_def)
  show "load_story (Some text) = Inl (ValueError TopLevelNotObject)"
    if "json_loads text = Some v \<and> \<not> is_object v"
    using that by (cases v) (simp_all add: load_story_def)
  show "\<exists>e. load_story (Some text) = Inl e"
    if "json_loads text = Some (JObj story) \<and> story_violation story"
    using that load_story_violation by blast
  show "load_story (Some text) = Inr story"
    if "json_loads text = Some (JObj story) \<and> \<not> story_violation story"
    using that by (simp add: load_story_Inr_iff)
  show "is_value_error e"
    if "json_loads text = Some (JObj story) \<and> story_shaped story \<and> load_story (Some text) = Inl e"
    using that load_story_kind by blast
  show "build_ui file = Exited e" if "load_story file = Inl e"
    using that by (simp add: build_ui_def)
qed

theorem load_story_error_kinds_witness:
  \<open>json_loads ''{"start": {"text": "t", "next_hint": "h"}, "end": {"text": "e", "next": "nowhere"}}''
     = Some (JObj [(''start'', JObj [(''text'', JStr ''t''), (''next_hint'', JStr ''h'')]),
                   (''end'', JObj [(''text'', JStr ''e''), (''next'', JStr ''nowhere'')])])
   \<and> story_shaped [(''start'', JObj [(''text'', JStr ''t''), (''next_hint'', JStr ''h'')]),
                    (''end'', JObj [(''text'', JStr ''e''), (''next'', JStr ''nowhere'')])]
   \<and> story_violation [(''start'', JObj [(''text'', JStr ''t''), (''next_hint'', JStr ''h'')]),
                       (''end'', JObj [(''text'', JStr ''e''), (''next'', JStr ''nowhere'')])]
   \<and> load_story (Some ''{"start": {"text": "t", "next_hint": "h"}, "end": {"text": "e", "next": "nowhere"}}'')
     = Inl (ValueError (HintWithoutRoute ''start''))
   \<and> is_value_error (ValueError (HintWithoutRoute ''start''))
   \<and> build_ui (Some ''{"start": {"text": "t", "next_hint": "h"}, "end": {"text": "e", "next": "nowhere"}}'')
     = Exited (ValueError (HintWithoutRoute ''start''))
   \<and> json_loads ''["start"]'' = Some (JArr [JStr ''start''])
   \<and> load_story (Some ''["start"]'') = Inl (ValueError TopLevelNotObject)
   \<and> json_loads ''{"start": '' = None
   \<and> load_story (Some ''{"start": '') = Inl (ValueError NotValidJSON)\<close>
proof -
  let ?story = "[(''start'', JObj [(''text'', JStr ''t''), (''next_hint'', JStr ''h'')]),
                 (''end'', JObj [(''text'', JStr ''e''), (''next'', JStr ''nowhere'')])]"
  note T = load_story_error_kinds
  have 1: \<open>json_loads ''{"start": {"text": "t", "next_hint": "h"}, "end": {"text": "e", "next": "nowhere"}}''
     = Some (JObj ?story)\<close>
    by code_simp
  have 2: "story_shaped ?story"
    by code_simp
  have 3: "story_violation ?story"
    by code_simp
  have 4: \<open>load_story (Some ''{"start": {"text": "t", "next_hint": "h"}, "end": {"text": "e", "next": "nowhere"}}'')
     = Inl (ValueError (HintWithoutRoute ''start''))\<close>
    by code_simp
  from T[THEN conjunct2, THEN conjunct2, THEN conjunct2, THEN conjunct2, THEN conjunct2,
         THEN conjunct1] 1 2 4
  have 5: "is_value_error (ValueError (HintWithoutRoute ''start''))"
    by blast
  from T[THEN conjunct2, THEN conjunct2, THEN conjunct2, THEN conjunct2, THEN conjunct2,
         THEN conjunct2] 4
  have 6: \<open>build_ui (Some ''{"start": {"text": "t", "next_hint": "h"}, "end": {"text": "e", "next": "nowhere"}}'')
     = Exited (ValueError (HintWithoutRoute ''start''))\<close>
    by (rule mp)
  have 7: \<open>json_loads ''["start"]'' = Some (JArr [JStr ''start''])\<close>
    by code_simp
  have "\<not> is_object (JArr [JStr ''start''])"
    by simp
  with T[THEN conjunct2, THEN conjunct2, THEN conjunct1] 7
  have 8: \<open>load_story (Some ''["start"]'') = Inl (ValueError TopLevelNotObject)\<close>
    by blast
  have 9: \<open>json_loads ''{"start": '' = None\<close>
    by code_simp
  from T[THEN conjunct2, THEN conjunct1] 9
  have 10: \<open>load_story (Some ''{"start": '') = Inl (ValueError NotValidJSON)\<close>
    by (rule mp)
  show ?thesis
    by (intro conjI 1 2 3 4 5 6 7 8 9 10)
qed

theorem load_story_two_error_kinds:
  "load_story None = Inl (FileNotFoundError StoryFileNotFound)
   \<and> load_story (Some ''garbage'') = Inl (ValueError NotValidJSON)
   \<and> \<not> is_value_error (FileNotFoundError StoryFileNotFound)
   \<and> is_value_error (ValueError NotValidJSON)"
  by (intro conjI; code_simp)

text \<open>
  C5 (the code fails it). The claim: every node whose \<^verbatim>\<open>options\<close> is a list that is not empty
  is resolved at once to exactly its authored options. \<^verbatim>\<open>set_buttons\<close> reads \<^verbatim>\<open>opts[0]["label"]\<close>
  and \<^verbatim>\<open>opts[1]["label"]\<close> unguarded, and \<^verbatim>\<open>load_story\<close> never checks that an option has a
  label: the story below is accepted, its node \<^verbatim>\<open>start\<close> has one authored option, and showing
  the node raises \<^verbatim>\<open>KeyError('label')\<close>, which nothing catches, instead of presenting the
  option. (No generation is started, and options that have their labels are shown: lemma
  \<open>show_node_authored\<close>.)
\<close>

theorem authored_option_without_label_raises:
  \<open>load_story (Some ''{"start":{"text":"t","options":[{"next":"start"}]}}'')
     = Inr [(''start'', JObj [(''text'', JStr ''t''),
                              (''options'', JArr [JObj [(''next'', JStr ''start'')]])])]
   \<and> show_node ''start'' initial_ui
         [(''start'', JObj [(''text'', JStr ''t''),
                            (''options'', JArr [JObj [(''next'', JStr ''start'')]])])]
     = Inl (KeyError (JStr ''label''))
   \<and> build_ui (Some ''{"start":{"text":"t","options":[{"next":"start"}]}}'')
     = Crashed (KeyError (JStr ''label''))\<close>
  by (intro conjI; code_simp)

text \<open>
  C7. A node whose \<^verbatim>\<open>options\<close> is empty or absent and whose \<^verbatim>\<open>next_hint\<close> is empty or absent is
  shown at once: the window shows the node's text and no choice, and no generation starts.
\<close>

theorem node_without_options_and_hint_is_terminal:
  assumes "map_of story node_id = Some (JObj node)"
    and "\<not> truthy (dict_get node ''options'' (JArr []))"
    and "\<not> truthy (dict_get node ''next_hint'' (JStr []))"
    and "map_of node ''text'' = Some t"
  shows "show_node node_id u story =
           Inr (u\<lparr>status := ''Node: '' @ node_id, box := t, btn1 := Hidden, btn2 := Hidden\<rparr>, None)
         \<and> choices_shown (u\<lparr>status := ''Node: '' @ node_id, box := t, btn1 := Hidden, btn2 := Hidden\<rparr>) = []"
  using assms
  by (simp add: show_node_def render_text_def button_for_def choices_shown_def)

theorem node_without_options_and_hint_is_terminal_witness:
  "load_story (Some forest_text) = Inr forest
   \<and> map_of forest ''end'' = Some (JObj end_node)
   \<and> \<not> truthy (dict_get end_node ''options'' (JArr []))
   \<and> \<not> truthy (dict_get end_node ''next_hint'' (JStr []))
   \<and> show_node ''end'' initial_ui forest
       = Inr (\<lparr>status = ''Node: end'', box = JStr ''The end.'', btn1 = Hidden, btn2 = Hidden,
                dialogs = []\<rparr>, None)"
proof -
  have 0: "load_story (Some forest_text) = Inr forest"
    by (rule load_forest)
  have 1: "map_of forest ''end'' = Some (JObj end_node)"
    by code_simp
  have 2: "\<not> truthy (dict_get end_node ''options'' (JArr []))"
    by code_simp
  have 3: "\<not> truthy (dict_get end_node ''next_hint'' (JStr []))"
    by code_simp
  have 4: "map_of end_node ''text'' = Some (JStr ''The end.'')"
    by code_simp
  have 5: "initial_ui\<lparr>status := ''Node: '' @ ''end'', box := JStr ''The end.'', btn1 := Hidden, btn2 := Hidden\<rparr>
            = \<lparr>status = ''Node: end'', box = JStr ''The end.'', btn1 = Hidden, btn2 = Hidden, dialogs = []\<rparr>"
    by (simp add: initial_ui_def)
  from node_without_options_and_hint_is_terminal[OF 1 2 3 4, of initial_ui, THEN conjunct1]
  have 6: "show_node ''end'' initial_ui forest
       = Inr (\<lparr>status = ''Node: end'', box = JStr ''The end.'', btn1 = Hidden, btn2 = Hidden,
                dialogs = []\<rparr>, None)"
    unfolding 5 .
  show ?thesis
    by (intro conjI 0 1 2 3 6)
qed

text \<open>
  C1. When the generation of a hinted node has produced its labels, they are routed in this
  order of preference, for a node whose checked references are keys of the story (as
  \<^verbatim>\<open>load_story\<close> ensures) and whose own identifier is a key: if \<^verbatim>\<open>next_map\<close> is a list that is not
  empty, label \<open>i\<close> goes to \<^verbatim>\<open>next_map[i]\<close> and the labels beyond its length are dropped;
  otherwise, if \<^verbatim>\<open>next\<close> is set, every label goes to it; otherwise every label goes back to the
  node itself. \<^verbatim>\<open>work\<close> passes this routing to \<^verbatim>\<open>update\<close>, which shows the first two routed labels
  when there is one, and pressing a shown label shows its target.
\<close>

theorem generated_labels_routed_by_policy:
  assumes "list_all (is_key story) (checked_references node)"
    and "node_id \<in> set (map fst story)"
  shows "(dict_get node ''next_map'' JNull = JArr ts \<and> ts \<noteq> [] \<longrightarrow>
            mapped story (targets node_id node labels) labels = map2 choice labels (map str_or_empty ts))
       \<and> (\<not> (\<exists>ts. dict_get node ''next_map'' JNull = JArr ts \<and> ts \<noteq> [])
            \<and> dict_get node ''next'' JNull = JStr n \<longrightarrow>
            mapped story (targets node_id node labels) labels = map (\<lambda>l. choice l n) labels)
       \<and> (\<not> (\<exists>ts. dict_get node ''next_map'' JNull = JArr ts \<and> ts \<noteq> [])
            \<and> dict_get node ''next'' JNull = JNull \<longrightarrow>
            mapped story (targets node_id node labels) labels = map (\<lambda>l. choice l node_id) labels)
       \<and> (parse_scene_and_options_json out = Inr (scene, labels)
            \<and> rq_node_id rq = node_id \<and> rq_node rq = node \<longrightarrow>
            work rq story (Output out)
              = Update scene labels (mapped story (targets node_id node labels) labels))
       \<and> (rq_node rq = node \<and> map_of node ''text'' = Some (JStr t)
            \<and> m = mapped story (targets node_id node labels) labels \<and> m \<noteq> [] \<longrightarrow>
            (\<exists>u'. run_callback rq (Update scene labels m) e_bound u = Inr u'
               \<and> box u' = JStr (t @ ''\<newline>\<newline>'' @ scene @ debug_text node labels)
               \<and> choices_shown u' = take 2 m \<and> labels_shown u' = map label_of (take 2 m)))
       \<and> label_of (choice l tgt) = JStr l
       \<and> press (Shown (JStr l) (choice l tgt)) u story = show_node tgt u story"
proof (intro conjI impI)
  show "mapped story (targets node_id node labels) labels = map2 choice labels (map str_or_empty ts)"
    if h: "dict_get node ''next_map'' JNull = JArr ts \<and> ts \<noteq> []"
  proof -
    from h have nm: "dict_get node ''next_map'' JNull = JArr ts" and ne: "ts \<noteq> []" by simp_all
    have "list_all (is_key story) ts"
      using assms(1) nm by (simp add: checked_references_def next_map_entries_def)
    from targets_next_map[OF nm ne this, of node_id labels] show ?thesis
      by (simp add: mapped_all_keys)
  qed
  show "mapped story (targets node_id node labels) labels = map (\<lambda>l. choice l n) labels"
    if h: "\<not> (\<exists>ts. dict_get node ''next_map'' JNull = JArr ts \<and> ts \<noteq> [])
            \<and> dict_get node ''next'' JNull = JStr n"
  proof -
    from h have "is_key story (JStr n)"
      using assms(1) by (simp add: checked_references_def)
    then have k: "n \<in> set (map fst story)" by simp
    from h have "targets node_id node labels = replicate (max 1 (length labels)) n"
      by (intro targets_next) blast+
    then show ?thesis
      using mapped_replicate[OF k, of labels] by (simp only:)
  qed
  show "mapped story (targets node_id node labels) labels = map (\<lambda>l. choice l node_id) labels"
    if h: "\<not> (\<exists>ts. dict_get node ''next_map'' JNull = JArr ts \<and> ts \<noteq> [])
            \<and> dict_get node ''next'' JNull = JNull"
  proof -
    from h have "\<not> is_str (dict_get node ''next'' JNull)" by simp
    with h have "targets node_id node labels = replicate (max 1 (length labels)) node_id"
      by (intro targets_self) blast+
    then show ?thesis
      using mapped_replicate[OF assms(2), of labels] by (simp only:)
  qed
  show "work rq story (Output out)
          = Update scene labels (mapped story (targets node_id node labels) labels)"
    if "parse_scene_and_options_json out = Inr (scene, labels)
            \<and> rq_node_id rq = node_id \<and> rq_node rq = node"
    using that by (simp add: work_def)
  show "\<exists>u'. run_callback rq (Update scene labels m) e_bound u = Inr u'
               \<and> box u' = JStr (t @ ''\<newline>\<newline>'' @ scene @ debug_text node labels)
               \<and> choices_shown u' = take 2 m \<and> labels_shown u' = map label_of (take 2 m)"
    if h: "rq_node rq = node \<and> map_of node ''text'' = Some (JStr t)
            \<and> m = mapped story (targets node_id node labels) labels \<and> m \<noteq> []"
  proof -
    from h have 1: "map_of (rq_node rq) ''text'' = Some (JStr t)" and 2: "m \<noteq> []"
      and 4: "rq_node rq = node" and 5: "m = mapped story (targets node_id node labels) labels"
      by blast+
    have 3: "list_all has_label m"
      unfolding 5 by (rule mapped_labelled)
    from update_mapped[OF 1 2 3, of scene labels u] show ?thesis
      unfolding 4 by (auto simp: run_callback_def)
  qed
  show "label_of (choice l tgt) = JStr l"
    by (rule choice_label)
  show "press (Shown (JStr l) (choice l tgt)) u story = show_node tgt u story"
    by (rule press_choice)
qed

theorem generated_labels_routed_by_policy_witness:
  \<open>list_all (is_key forest) (checked_references path_node) \<and> ''path'' \<in> set (map fst forest)
   \<and> dict_get path_node ''next_map'' JNull = JArr [JStr ''end'', JStr ''glade'']
   \<and> mapped forest (targets ''path'' path_node [''A'', ''B'', ''C'']) [''A'', ''B'', ''C'']
       = [choice ''A'' ''end'', choice ''B'' ''glade'']
   \<and> list_all (is_key forest) (checked_references glade_node) \<and> ''glade'' \<in> set (map fst forest)
   \<and> dict_get glade_node ''next'' JNull = JStr ''end''
   \<and> mapped forest (targets ''glade'' glade_node [''A'', ''B'']) [''A'', ''B'']
       = [choice ''A'' ''end'', choice ''B'' ''end'']
   \<and> list_all (is_key forest) (checked_references end_node) \<and> ''end'' \<in> set (map fst forest)
   \<and> dict_get end_node ''next'' JNull = JNull
   \<and> mapped forest (targets ''end'' end_node [''A'']) [''A''] = [choice ''A'' ''end'']
   \<and> show_node ''path'' initial_ui forest
       = Inr (\<lparr>status = ''Node: path'', box = JStr (''A path.'' @ generating), btn1 = Hidden,
                btn2 = Hidden, dialogs = []\<rparr>,
              Some \<lparr>rq_node_id = ''path'', rq_node = path_node, rq_hint = JStr ''a fork''\<rparr>)
   \<and> parse_scene_and_options_json ''{"scene":"S","options":["A","B"]}'' = Inr (''S'', [''A'', ''B''])
   \<and> work \<lparr>rq_node_id = ''path'', rq_node = path_node, rq_hint = JStr ''a fork''\<rparr> forest
         (Output ''{"scene":"S","options":["A","B"]}'')
       = Update ''S'' [''A'', ''B''] [choice ''A'' ''end'', choice ''B'' ''glade'']
   \<and> run_callback \<lparr>rq_node_id = ''path'', rq_node = path_node, rq_hint = JStr ''a fork''\<rparr>
         (Update ''S'' [''A'', ''B''] [choice ''A'' ''end'', choice ''B'' ''glade'']) False
         \<lparr>status = ''Node: path'', box = JStr (''A path.'' @ generating), btn1 = Hidden,
            btn2 = Hidden, dialogs = []\<rparr>
       = Inr \<lparr>status = ''Node: path'', box = JStr ''A path.\<newline>\<newline>S'',
               btn1 = Shown (JStr ''A'') (choice ''A'' ''end''),
               btn2 = Shown (JStr ''B'') (choice ''B'' ''glade''), dialogs = []\<rparr>
   \<and> press (Shown (JStr ''B'') (choice ''B'' ''glade'')) initial_ui forest
       = show_node ''glade'' initial_ui forest\<close>
proof -
  note T = generated_labels_routed_by_policy
  let ?rq = "\<lparr>rq_node_id = ''path'', rq_node = path_node, rq_hint = JStr ''a fork''\<rparr>"
  have p1: "list_all (is_key forest) (checked_references path_node)"
    by code_simp
  have p2: "''path'' \<in> set (map fst forest)"
    by code_simp
  have p3: "dict_get path_node ''next_map'' JNull = JArr [JStr ''end'', JStr ''glade'']"
    by code_simp
  from T[OF p1 p2, THEN conjunct1, of "[JStr ''end'', JStr ''glade'']" "[''A'', ''B'', ''C'']"] p3
  have p4: "mapped forest (targets ''path'' path_node [''A'', ''B'', ''C'']) [''A'', ''B'', ''C'']
       = [choice ''A'' ''end'', choice ''B'' ''glade'']"
    by simp
  have g1: "list_all (is_key forest) (checked_references glade_node)"
    by code_simp
  have g2: "''glade'' \<in> set (map fst forest)"
    by code_simp
  have g3: "dict_get glade_node ''next'' JNull = JStr ''end''"
    by code_simp
  have g0: "dict_get glade_node ''next_map'' JNull = JNull"
    by code_simp
  from T[OF g1 g2, THEN conjunct2, THEN conjunct1, of "''end''" "[''A'', ''B'']"] g3 g0
  have g4: "mapped forest (targets ''glade'' glade_node [''A'', ''B'']) [''A'', ''B'']
       = [choice ''A'' ''end'', choice ''B'' ''end'']"
    by simp
  have e1: "list_all (is_key forest) (checked_references end_node)"
    by code_simp
  have e2: "''end'' \<in> set (map fst forest)"
    by code_simp
  have e3: "dict_get end_node ''next'' JNull = JNull"
    by code_simp
  have e0: "dict_get end_node ''next_map'' JNull = JNull"
    by code_simp
  from T[OF e1 e2, THEN conjunct2, THEN conjunct2, THEN conjunct1, of "[''A'']"] e3 e0
  have e4: "mapped forest (targets ''end'' end_node [''A'']) [''A''] = [choice ''A'' ''end'']"
    by simp
  have s1: "show_node ''path'' initial_ui forest
       = Inr (\<lparr>status = ''Node: path'', box = JStr (''A path.'' @ generating), btn1 = Hidden,
                btn2 = Hidden, dialogs = []\<rparr>, Some ?rq)"
    by code_simp
  have s2: \<open>parse_scene_and_options_json ''{"scene":"S","options":["A","B"]}'' = Inr (''S'', [''A'', ''B''])\<close>
    by code_simp
  have s3: \<open>work ?rq forest (Output ''{"scene":"S","options":["A","B"]}'')
       = Update ''S'' [''A'', ''B''] [choice ''A'' ''end'', choice ''B'' ''glade'']\<close>
    by code_simp
  have s4: "run_callback ?rq (Update ''S'' [''A'', ''B''] [choice ''A'' ''end'', choice ''B'' ''glade'']) False
         \<lparr>status = ''Node: path'', box = JStr (''A path.'' @ generating), btn1 = Hidden,
            btn2 = Hidden, dialogs = []\<rparr>
       = Inr \<lparr>status = ''Node: path'', box = JStr ''A path.\<newline>\<newline>S'',
               btn1 = Shown (JStr ''A'') (choice ''A'' ''end''),
               btn2 = Shown (JStr ''B'') (choice ''B'' ''glade''), dialogs = []\<rparr>"
    by code_simp
  have s5: "press (Shown (JStr ''B'') (choice ''B'' ''glade'')) initial_ui forest
       = show_node ''glade'' initial_ui forest"
    by (rule T[OF p1 p2, THEN conjunct2, THEN conjunct2, THEN conjunct2, THEN conjunct2,
               THEN conjunct2, THEN conjunct2])
  show ?thesis
    by (intro conjI p1 p2 p3 p4 g1 g2 g3 g4 e1 e2 e3 e4 s1 s2 s3 s4 s5)
qed

text \<open>
  C6. When no generated label is routed (\<^verbatim>\<open>mapped\<close> is empty), the callback still offers a
  choice: without any raw label, the single choice labelled \<^verbatim>\<open>Continue\<close> that leads back to the
  node; with raw labels, the first two of them, each leading back to the node.
\<close>

theorem fallback_choices_when_no_label_is_routed:
  assumes "work rq story gen = Update scene labels []"
    and "map_of (rq_node rq) ''text'' = Some (JStr t)"
  shows "\<exists>u'. run_callback rq (work rq story gen) e_bound u = Inr u'
           \<and> box u' = JStr (t @ ''\<newline>\<newline>'' @ scene @ debug_text (rq_node rq) labels)
           \<and> choices_shown u' =
               (if labels = [] then [choice ''Continue'' (rq_node_id rq)]
                else map (\<lambda>l. choice l (rq_node_id rq)) (take 2 labels))
           \<and> labels_shown u' = (if labels = [] then [JStr ''Continue''] else map JStr (take 2 labels))
           \<and> status u' = status u \<and> dialogs u' = dialogs u"
  using update_unrouted[OF assms(2), of scene labels u]
  by (simp add: assms(1) run_callback_def)

theorem fallback_choices_when_no_label_is_routed_witness:
  \<open>work \<lparr>rq_node_id = ''path'', rq_node = path_node, rq_hint = JStr ''a fork''\<rparr> forest (Output ''garbage'')
     = Update [] [] []
   \<and> map_of (rq_node \<lparr>rq_node_id = ''path'', rq_node = path_node, rq_hint = JStr ''a fork''\<rparr>) ''text''
       = Some (JStr ''A path.'')
   \<and> run_callback \<lparr>rq_node_id = ''path'', rq_node = path_node, rq_hint = JStr ''a fork''\<rparr>
         (work \<lparr>rq_node_id = ''path'', rq_node = path_node, rq_hint = JStr ''a fork''\<rparr> forest
            (Output ''garbage''))
         False initial_ui
       = Inr \<lparr>status = [],
               box = JStr ''A path.\<newline>\<newline>\<newline>\<newline>\<newline>[Debug] No options parsed from model output.'',
               btn1 = Shown (JStr ''Continue'') (choice ''Continue'' ''path''), btn2 = Hidden,
               dialogs = []\<rparr>
   \<and> choices_shown \<lparr>status = [],
               box = JStr ''A path.\<newline>\<newline>\<newline>\<newline>\<newline>[Debug] No options parsed from model output.'',
               btn1 = Shown (JStr ''Continue'') (choice ''Continue'' ''path''), btn2 = Hidden,
               dialogs = []\<rparr>
       = [choice ''Continue'' ''path'']
   \<and> work \<lparr>rq_node_id = ''lone'',
            rq_node = [(''text'', JStr ''L''), (''next_hint'', JStr ''h''), (''next_map'', JArr [JStr ''gone''])],
            rq_hint = JStr ''h''\<rparr>
         [(''lone'', JObj [(''text'', JStr ''L''), (''next_hint'', JStr ''h''),
                           (''next_map'', JArr [JStr ''gone''])])]
         (Output ''{"scene":"S","options":["A","B"]}'')
       = Update ''S'' [''A'', ''B''] []
   \<and> run_callback
         \<lparr>rq_node_id = ''lone'',
            rq_node = [(''text'', JStr ''L''), (''next_hint'', JStr ''h''), (''next_map'', JArr [JStr ''gone''])],
            rq_hint = JStr ''h''\<rparr>
         (work \<lparr>rq_node_id = ''lone'',
            rq_node = [(''text'', JStr ''L''), (''next_hint'', JStr ''h''), (''next_map'', JArr [JStr ''gone''])],
            rq_hint = JStr ''h''\<rparr>
           [(''lone'', JObj [(''text'', JStr ''L''), (''next_hint'', JStr ''h''),
                           (''next_map'', JArr [JStr ''gone''])])]
           (Output ''{"scene":"S","options":["A","B"]}''))
         False initial_ui
       = Inr \<lparr>status = [], box = JStr ''L\<newline>\<newline>S'',
               btn1 = Shown (JStr ''A'') (choice ''A'' ''lone''),
               btn2 = Shown (JStr ''B'') (choice ''B'' ''lone''), dialogs = []\<rparr>
   \<and> choices_shown \<lparr>status = [], box = JStr ''L\<newline>\<newline>S'',
               btn1 = Shown (JStr ''A'') (choice ''A'' ''lone''),
               btn2 = Shown (JStr ''B'') (choice ''B'' ''lone''), dialogs = []\<rparr>
       = [choice ''A'' ''lone'', choice ''B'' ''lone'']\<close>
proof -
  let ?rq = "\<lparr>rq_node_id = ''path'', rq_node = path_node, rq_hint = JStr ''a fork''\<rparr>"
  let ?u = "\<lparr>status = [],
               box = JStr ''A path.\<newline>\<newline>\<newline>\<newline>\<newline>[Debug] No options parsed from model output.'',
               btn1 = Shown (JStr ''Continue'') (choice ''Continue'' ''path''), btn2 = Hidden,
               dialogs = []\<rparr>"
  let ?lone = "[(''text'', JStr ''L''), (''next_hint'', JStr ''h''), (''next_map'', JArr [JStr ''gone''])]"
  let ?rl = "\<lparr>rq_node_id = ''lone'', rq_node = ?lone, rq_hint = JStr ''h''\<rparr>"
  let ?sl = "[(''lone'', JObj ?lone)]"
  let ?v = "\<lparr>status = [], box = JStr ''L\<newline>\<newline>S'',
               btn1 = Shown (JStr ''A'') (choice ''A'' ''lone''),
               btn2 = Shown (JStr ''B'') (choice ''B'' ''lone''), dialogs = []\<rparr>"
  note T = fallback_choices_when_no_label_is_routed
  have 1: "work ?rq forest (Output ''garbage'') = Update [] [] []"
    by code_simp
  have 2: "map_of (rq_node ?rq) ''text'' = Some (JStr ''A path.'')"
    by code_simp
  have 3: "run_callback ?rq (work ?rq forest (Output ''garbage'')) False initial_ui = Inr ?u"
    by code_simp
  from T[OF 1 2, of False initial_ui] 3 have 4: "choices_shown ?u = [choice ''Continue'' ''path'']"
    by auto
  have 5: \<open>work ?rl ?sl (Output ''{"scene":"S","options":["A","B"]}'') = Update ''S'' [''A'', ''B''] []\<close>
    by code_simp
  have 6: "map_of (rq_node ?rl) ''text'' = Some (JStr ''L'')"
    by simp
  have 7: \<open>run_callback ?rl (work ?rl ?sl (Output ''{"scene":"S","options":["A","B"]}'')) False initial_ui = Inr ?v\<close>
    by code_simp
  from T[OF 5 6, of False initial_ui] 7 have 8: "choices_shown ?v = [choice ''A'' ''lone'', choice ''B'' ''lone'']"
    by auto
  show ?thesis
    by (intro conjI 1 2 3 4 5 7 8)
qed




end
